theory Spec2Isabelle
  imports Main "HOL-Library.Multiset"
begin

section \<open>Python values read from the Codeforces JSON\<close>

text \<open>
  A JSON field read with \<open>dict.get\<close> is an integer, \<open>None\<close> (the key is missing or
  null), or a value of some other type (a float, a string, ...). Of the last kind only
  the truthiness matters to the program (\<open>rating or 0\<close>), so it is all that is kept.
  Python's \<open>True\<close>/\<open>False\<close> are instances of \<open>int\<close> and are \<open>PyInt 1\<close>/\<open>PyInt 0\<close>.
\<close>

datatype pyval = PyInt int | PyNone | PyOther bool

text \<open>\<open>v or 0\<close>: the value itself when it is truthy, otherwise \<open>0\<close>.\<close>

fun or0 :: "pyval \<Rightarrow> pyval" where
  "or0 (PyInt n) = (if n = 0 then PyInt 0 else PyInt n)"
| "or0 PyNone = PyInt 0"
| "or0 (PyOther truthy) = (if truthy then PyOther truthy else PyInt 0)"

section \<open>Points mapping\<close>

definition POINT_MAP :: "((int \<times> int) \<times> int) list" where
  "POINT_MAP =
    [((800, 899), 1), ((900, 999), 1), ((1000, 1099), 2), ((1100, 1199), 2),
     ((1200, 1299), 3), ((1300, 1399), 3), ((1400, 1499), 4), ((1500, 1599), 5),
     ((1600, 1699), 6), ((1700, 1799), 7), ((1800, 1899), 8), ((1900, 1999), 10),
     ((2000, 2099), 12), ((2100, 2199), 15), ((2200, 2299), 18), ((2300, 2399), 22),
     ((2400, 2499), 27), ((2500, 2599), 33), ((2600, 2699), 40), ((2700, 2799), 48),
     ((2800, 2899), 58), ((2900, 2999), 70), ((3000, 3099), 85)]"

text \<open>The \<open>for (a, b), v in POINT_MAP\<close> loop: the first band that holds the rating wins.\<close>

fun point_scan :: "((int \<times> int) \<times> int) list \<Rightarrow> int \<Rightarrow> int" where
  "point_scan [] rating = 0"
| "point_scan (((a, b), v) # rest) rating =
     (if a \<le> rating \<and> rating \<le> b then v else point_scan rest rating)"

fun rating_to_points :: "pyval \<Rightarrow> int" where
  "rating_to_points (PyInt rating) = point_scan POINT_MAP rating"
| "rating_to_points PyNone = 0"
| "rating_to_points (PyOther truthy) = 0"

text \<open>
  The band table as the specification words it: the values of the bands
  800--899, 900--999, ..., 3000--3099 in order.
\<close>

definition band_values :: "int list" where
  "band_values = [1, 1, 2, 2, 3, 3, 4, 5, 6, 7, 8, 10, 12, 15, 18, 22, 27, 33, 40, 48, 58, 70, 85]"

definition pointsFor_spec :: "int \<Rightarrow> int" where
  "pointsFor_spec r =
     (if 800 \<le> r \<and> r \<le> 3099 then band_values ! nat ((r - 800) div 100) else 0)"


section \<open>Problems, submissions and their keys\<close>

text \<open>
  A catalog entry and a submission as the program reads them: only the fields the
  program looks at are kept, each with what \<open>dict.get\<close> returns when the key is missing.
  A submission without a \<open>problem\<close> key reads as the empty dictionary \<open>empty_dict\<close>.
\<close>

record problem =
  contestId :: "int option"
  index :: "string option"
  name :: "string option"
  rating :: pyval

record submission =
  sub_problem :: problem
  verdict :: "string option"

definition empty_dict :: problem where
  "empty_dict = \<lparr>contestId = None, index = None, name = None, rating = PyNone\<rparr>"

text \<open>Python's \<open>str\<close> of an integer, for the f-string that builds a problem key.\<close>

definition digit_char :: "nat \<Rightarrow> char" where
  "digit_char d = ''0123456789'' ! d"

fun str_nat :: "nat \<Rightarrow> string" where
  "str_nat n = (if n < 10 then [digit_char n] else str_nat (n div 10) @ [digit_char (n mod 10)])"

declare str_nat.simps [simp del]

definition str_int :: "int \<Rightarrow> string" where
  "str_int i = (if i < 0 then CHR ''-'' # str_nat (nat (- i)) else str_nat (nat i))"

fun fmt_int :: "int option \<Rightarrow> string" where
  "fmt_int None = ''None''"
| "fmt_int (Some i) = str_int i"

fun fmt_str :: "string option \<Rightarrow> string" where
  "fmt_str None = ''None''"
| "fmt_str (Some s) = s"

text \<open>\<open>f"{p.get('contestId')}-{p.get('index')}"\<close>\<close>

definition problem_key :: "problem \<Rightarrow> string" where
  "problem_key p = fmt_int (contestId p) @ ''-'' @ fmt_str (index p)"

section \<open>Battle state and the process-wide registries\<close>

type_synonym chat_id = int
type_synonym user_id = int
type_synonym msg_id = int

datatype battle_status = Joining | Running | Cancelled

text \<open>
  The per-battle dictionary \<open>state\<close> of \<open>cmd_createbattle\<close>. \<open>participants\<close> is a
  Python dict (insertion-ordered, keys unique): an association list that is only ever
  extended with a key it does not hold. \<open>current_problem\<close> and \<open>current_round_msg\<close> are
  keys that exist only once \<open>post_round\<close> has stored them.
\<close>

record battle =
  creator :: user_id
  creator_handle :: string
  participants :: "(user_id \<times> string) list"
  num_problems :: int
  ratings :: "int list"
  selected_problems :: "problem list"
  round :: int
  message_id :: "msg_id option"
  status :: battle_status
  round_winner :: "(user_id \<times> string) option"
  round_finished :: bool
  current_problem :: "problem option"
  current_round_msg :: "msg_id option"

record points_row =
  pts :: int
  battles :: int
  first_solves :: int

datatype notice =
    BattleCreated
  | NotEnoughParticipants
  | SelectFailed nat int
  | RoundPosted int problem
  | NextRoundStarting
  | BattleFinished

datatype task = Countdown chat_id | RunBattle chat_id

text \<open>
  The state shared by all coroutines. A battle dictionary is a mutable object that a
  coroutine keeps a reference to across its \<open>await\<close>s, also after the registry has
  dropped it, so the dictionaries live in \<open>heap\<close> under a reference and
  \<open>ACTIVE_BATTLES\<close> maps a chat to a reference. \<open>users\<close> and \<open>points\<close> are the two
  SQLite tables (primary key \<open>(chat_id, user_id)\<close>), \<open>sent\<close> the \<open>send_message\<close> calls
  the bot has issued, \<open>spawned\<close> the \<open>asyncio.create_task\<close> calls.
\<close>

record world =
  heap :: "nat \<rightharpoonup> battle"
  next_ref :: nat
  ACTIVE_BATTLES :: "chat_id \<rightharpoonup> nat"
  PENDING_CANCELS :: "chat_id \<rightharpoonup> msg_id"
  users :: "(chat_id \<times> user_id) \<rightharpoonup> (string \<times> string \<times> int)"
  points :: "(chat_id \<times> user_id) \<rightharpoonup> points_row"
  sent :: "(chat_id \<times> notice) list"
  spawned :: "task list"

definition init_world :: world where
  "init_world = \<lparr>heap = Map.empty, next_ref = 0, ACTIVE_BATTLES = Map.empty,
     PENDING_CANCELS = Map.empty, users = Map.empty, points = Map.empty,
     sent = [], spawned = []\<rparr>"

text \<open>\<open>ACTIVE_BATTLES.get(chat_id)\<close>: the reference and the dictionary behind it.\<close>

definition battle_of :: "world \<Rightarrow> chat_id \<Rightarrow> (nat \<times> battle) option" where
  "battle_of w chat =
     (case ACTIVE_BATTLES w chat of
        None \<Rightarrow> None
      | Some ref \<Rightarrow> (case heap w ref of None \<Rightarrow> None | Some st \<Rightarrow> Some (ref, st)))"

text \<open>An in-place update of the dictionary behind a reference.\<close>

definition upd_battle :: "nat \<Rightarrow> (battle \<Rightarrow> battle) \<Rightarrow> world \<Rightarrow> world" where
  "upd_battle ref f w =
     (case heap w ref of None \<Rightarrow> w | Some st \<Rightarrow> w\<lparr>heap := (heap w)(ref \<mapsto> f st)\<rparr>)"

section \<open>Database helpers\<close>

definition zero_row :: points_row where
  "zero_row = \<lparr>pts = 0, battles = 0, first_solves = 0\<rparr>"

text \<open>\<open>INSERT OR IGNORE INTO points ... VALUES(?,?,0,0,0)\<close>\<close>

definition insert_or_ignore ::
  "chat_id \<Rightarrow> user_id \<Rightarrow> ((chat_id \<times> user_id) \<rightharpoonup> points_row) \<Rightarrow> ((chat_id \<times> user_id) \<rightharpoonup> points_row)" where
  "insert_or_ignore chat uid tbl =
     (case tbl (chat, uid) of None \<Rightarrow> tbl((chat, uid) \<mapsto> zero_row) | Some row \<Rightarrow> tbl)"

definition upsert_user :: "chat_id \<Rightarrow> user_id \<Rightarrow> string \<Rightarrow> string \<Rightarrow> int \<Rightarrow> world \<Rightarrow> world" where
  "upsert_user chat uid full_name handle r w =
     w\<lparr>users := (users w)((chat, uid) \<mapsto> (full_name, handle, r)),
       points := insert_or_ignore chat uid (points w)\<rparr>"

definition get_user :: "world \<Rightarrow> chat_id \<Rightarrow> user_id \<Rightarrow> (string \<times> string \<times> int) option" where
  "get_user w chat uid = users w (chat, uid)"

text \<open>
  \<open>add_points\<close>: the row is created when missing, then \<open>pts\<close> grows by the award and,
  for a first solve, \<open>first_solves\<close> by one.
\<close>

definition add_points :: "chat_id \<Rightarrow> user_id \<Rightarrow> int \<Rightarrow> bool \<Rightarrow> world \<Rightarrow> world" where
  "add_points chat uid p first_solve w =
     (let tbl = insert_or_ignore chat uid (points w) in
      case tbl (chat, uid) of
        None \<Rightarrow> w\<lparr>points := tbl\<rparr>
      | Some row \<Rightarrow>
          w\<lparr>points := tbl((chat, uid) \<mapsto>
               (if first_solve
                then row\<lparr>pts := pts row + p, first_solves := first_solves row + 1\<rparr>
                else row\<lparr>pts := pts row + p\<rparr>))\<rparr>)"

text \<open>
  \<open>increment_battles\<close>: one \<open>UPDATE ... WHERE chat_id=? AND user_id=?\<close> per user id;
  an \<open>UPDATE\<close> that matches no row changes nothing.
\<close>

definition bump_battles ::
  "chat_id \<Rightarrow> user_id \<Rightarrow> ((chat_id \<times> user_id) \<rightharpoonup> points_row) \<Rightarrow> ((chat_id \<times> user_id) \<rightharpoonup> points_row)" where
  "bump_battles chat uid tbl =
     (case tbl (chat, uid) of
        None \<Rightarrow> tbl
      | Some row \<Rightarrow> tbl((chat, uid) \<mapsto> row\<lparr>battles := battles row + 1\<rparr>))"

definition increment_battles :: "chat_id \<Rightarrow> user_id list \<Rightarrow> world \<Rightarrow> world" where
  "increment_battles chat user_ids w =
     w\<lparr>points := fold (bump_battles chat) user_ids (points w)\<rparr>"


section \<open>Creating a battle\<close>

datatype parse_error =
    MissingArgs
  | NeedTwoArgs
  | InvalidLiteral string
  | BadNumProblems
  | BadRating

text \<open>
  \<open>parse_create_args\<close>. Python's built-in \<open>int\<close> on a string is the parameter
  \<open>py_int\<close>: \<open>None\<close> where \<open>int(x)\<close> raises \<open>ValueError\<close>. The list comprehension
  converts every rating before the range loop looks at any of them.
\<close>

fun convert_ratings :: "(string \<Rightarrow> int option) \<Rightarrow> string list \<Rightarrow> parse_error + int list" where
  "convert_ratings py_int [] = Inr []"
| "convert_ratings py_int (x # xs) =
     (case py_int x of
        None \<Rightarrow> Inl (InvalidLiteral x)
      | Some r \<Rightarrow>
          (case convert_ratings py_int xs of Inl e \<Rightarrow> Inl e | Inr rs \<Rightarrow> Inr (r # rs)))"

fun validate_ratings :: "int list \<Rightarrow> parse_error + unit" where
  "validate_ratings [] = Inr ()"
| "validate_ratings (r # rs) =
     (if r < 800 \<or> r > 3500 then Inl BadRating else validate_ratings rs)"

fun parse_create_args :: "(string \<Rightarrow> int option) \<Rightarrow> string list \<Rightarrow> parse_error + (int \<times> int list)" where
  "parse_create_args py_int [] = Inl MissingArgs"
| "parse_create_args py_int [a] = Inl NeedTwoArgs"
| "parse_create_args py_int (a # rest) =
     (case py_int a of
        None \<Rightarrow> Inl (InvalidLiteral a)
      | Some num \<Rightarrow>
          if num < 1 \<or> num > 10 then Inl BadNumProblems
          else (case convert_ratings py_int rest of
                  Inl e \<Rightarrow> Inl e
                | Inr rs \<Rightarrow>
                    (case validate_ratings rs of
                       Inl e \<Rightarrow> Inl e
                     | Inr u \<Rightarrow> Inr (num, rs))))"

text \<open>
  A decimal reader for plain literals (an optional sign, then ASCII digits), on which
  it agrees with \<open>int\<close>; it instantiates \<open>py_int\<close> in the examples.
\<close>

definition digit_val :: "char \<Rightarrow> nat option" where
  "digit_val c =
     (if c \<in> set ''0123456789'' then Some (of_char c - 48) else None)"

fun read_digits :: "nat \<Rightarrow> string \<Rightarrow> nat option" where
  "read_digits acc [] = Some acc"
| "read_digits acc (c # cs) =
     (case digit_val c of None \<Rightarrow> None | Some d \<Rightarrow> read_digits (10 * acc + d) cs)"

fun plain_int :: "string \<Rightarrow> int option" where
  "plain_int [] = None"
| "plain_int (c # cs) =
     (if c = CHR ''-'' then (if cs = [] then None else map_option (\<lambda>n. - int n) (read_digits 0 cs))
      else if c = CHR ''+'' then (if cs = [] then None else map_option int (read_digits 0 cs))
      else map_option int (read_digits 0 (c # cs)))"

datatype reply =
    ReplyAlreadyActive
  | ReplyNeedHandle
  | ReplyInvalidArgs parse_error
  | BattleAnnounced
  | TransportError
  | ReplyNoActiveBattle
  | ReplyOnlyCreator
  | ReplyNotRunning
  | ReplyNoActiveRound
  | ReplyRoundCancelled int
  | ReplyConfirmPrompt
  | EditNoLongerActive
  | EditCancelledByCreator
  | EditBattleContinues

definition new_battle :: "user_id \<Rightarrow> string \<Rightarrow> int \<Rightarrow> int list \<Rightarrow> battle" where
  "new_battle uid handle num rs =
     \<lparr>creator = uid, creator_handle = handle, participants = [(uid, handle)],
      num_problems = num, ratings = rs, selected_problems = [], round = 0,
      message_id = None, status = Joining, round_winner = None, round_finished = False,
      current_problem = None, current_round_msg = None\<rparr>"

text \<open>\<open>ACTIVE_BATTLES[chat_id] = state\<close> for a freshly built dictionary.\<close>

definition register_battle :: "chat_id \<Rightarrow> battle \<Rightarrow> world \<Rightarrow> world" where
  "register_battle chat st w =
     w\<lparr>heap := (heap w)(next_ref w \<mapsto> st), next_ref := Suc (next_ref w),
       ACTIVE_BATTLES := (ACTIVE_BATTLES w)(chat \<mapsto> next_ref w)\<rparr>"

text \<open>After the announcement went out: its message id is stored and the countdown starts.\<close>

definition announce_battle :: "chat_id \<Rightarrow> nat \<Rightarrow> msg_id \<Rightarrow> world \<Rightarrow> world" where
  "announce_battle chat ref mid w =
     (upd_battle ref (\<lambda>b. b\<lparr>message_id := Some mid\<rparr>) w)
       \<lparr>spawned := spawned w @ [Countdown chat]\<rparr>"

text \<open>
  \<open>cmd_createbattle\<close>. \<open>send\<close> is what \<open>send_message\<close> does with the announcement:
  the new message's id, or \<open>None\<close> when the transport raises (the handler then ends with
  the battle registered and no countdown). The three rejections reply and return.
\<close>

definition cmd_createbattle ::
  "(string \<Rightarrow> int option) \<Rightarrow> chat_id \<Rightarrow> user_id \<Rightarrow> string list \<Rightarrow> msg_id option \<Rightarrow> world \<Rightarrow> reply \<times> world" where
  "cmd_createbattle py_int chat uid args send w =
     (if chat \<in> dom (ACTIVE_BATTLES w) then (ReplyAlreadyActive, w)
      else case get_user w chat uid of
        None \<Rightarrow> (ReplyNeedHandle, w)
      | Some (full_name, handle, r) \<Rightarrow>
          (case parse_create_args py_int args of
             Inl e \<Rightarrow> (ReplyInvalidArgs e, w)
           | Inr (num, rs) \<Rightarrow>
               (let w1 = (register_battle chat (new_battle uid handle num rs) w)
                           \<lparr>sent := sent w @ [(chat, BattleCreated)]\<rparr>
                in case send of
                     None \<Rightarrow> (TransportError, w1)
                   | Some mid \<Rightarrow> (BattleAnnounced, announce_battle chat (next_ref w) mid w1))))"

section \<open>Joining and the join countdown\<close>

text \<open>
  The tail of \<open>handle_ready_callback\<close>, after \<open>get_user\<close> has returned the handle: a user
  already in \<open>participants\<close> is answered, anyone else is added.
\<close>

definition ready_join :: "nat \<Rightarrow> user_id \<Rightarrow> string \<Rightarrow> world \<Rightarrow> world" where
  "ready_join ref uid handle w =
     upd_battle ref
       (\<lambda>b. if uid \<in> fst ` set (participants b) then b
            else b\<lparr>participants := participants b @ [(uid, handle)]\<rparr>) w"

definition handle_ready_callback :: "chat_id \<Rightarrow> user_id \<Rightarrow> world \<Rightarrow> world" where
  "handle_ready_callback chat uid w =
     (case battle_of w chat of
        None \<Rightarrow> w
      | Some (ref, st) \<Rightarrow>
          if status st \<noteq> Joining then w
          else (case get_user w chat uid of
                  None \<Rightarrow> w
                | Some (full_name, handle, r) \<Rightarrow> ready_join ref uid handle w))"

text \<open>One tick of \<open>battle_join_countdown\<close>: the countdown goes on only while the chat has a joining battle.\<close>

definition countdown_tick :: "chat_id \<Rightarrow> world \<Rightarrow> bool" where
  "countdown_tick chat w =
     (case battle_of w chat of None \<Rightarrow> False | Some (ref, st) \<Rightarrow> status st = Joining)"

datatype tail_outcome = NothingRegistered | TooFew | SetRunning

text \<open>
  What \<open>battle_join_countdown\<close> does once its six ticks are over, up to its next
  await. It takes whatever battle the chat has registered at that moment. With fewer
  than two participants it sends the notice and waits for the transport; otherwise it
  sets the battle running and starts \<open>run_battle\<close>, with no await in between.
\<close>

definition countdown_tail :: "chat_id \<Rightarrow> world \<Rightarrow> tail_outcome \<times> world" where
  "countdown_tail chat w =
     (case battle_of w chat of
        None \<Rightarrow> (NothingRegistered, w)
      | Some (ref, st) \<Rightarrow>
          if length (participants st) < 2
          then (TooFew, w\<lparr>sent := sent w @ [(chat, NotEnoughParticipants)]\<rparr>)
          else (SetRunning,
                (upd_battle ref (\<lambda>b. b\<lparr>status := Running\<rparr>) w)
                  \<lparr>spawned := spawned w @ [RunBattle chat]\<rparr>))"

definition countdown_elapse :: "chat_id \<Rightarrow> world \<Rightarrow> world" where
  "countdown_elapse chat w = snd (countdown_tail chat w)"

text \<open>
  The rest of the too-few branch, once the notice has been sent or has failed:
  \<open>ACTIVE_BATTLES.pop(chat_id, None)\<close>, in whatever state the other coroutines have
  left by then.
\<close>

definition countdown_drop :: "chat_id \<Rightarrow> world \<Rightarrow> world" where
  "countdown_drop chat w = w\<lparr>ACTIVE_BATTLES := (ACTIVE_BATTLES w)(chat := None)\<rparr>"

section \<open>Problem selection\<close>

text \<open>
  \<open>select_problems_for_battle\<close>. Its three outside sources are parameters:
  \<open>problems\<close> is what \<open>cf_problemset()\<close> returned, \<open>history handle\<close> what
  \<open>cf_user_status(handle)\<close> returned (the empty list when the call failed), and
  \<open>shuffle i\<close> the reordering that the \<open>i\<close>-th \<open>random.shuffle\<close> call of the run makes.
\<close>

definition attempted_keys :: "(string \<Rightarrow> submission list) \<Rightarrow> (user_id \<times> string) list \<Rightarrow> string list" where
  "attempted_keys history ps =
     concat (map (\<lambda>(uid, handle). map (\<lambda>s. problem_key (sub_problem s)) (history handle)) ps)"

text \<open>\<open>isinstance(p.get("rating"), int) and lo <= p["rating"] <= hi\<close>\<close>

definition in_window :: "int \<Rightarrow> int \<Rightarrow> problem \<Rightarrow> bool" where
  "in_window lo hi p = (case rating p of PyInt r \<Rightarrow> lo \<le> r \<and> r \<le> hi | _ \<Rightarrow> False)"

text \<open>Range mode: every problem of the pool that was not attempted, until \<open>num\<close> are selected.\<close>

fun range_loop :: "string list \<Rightarrow> int \<Rightarrow> problem list \<Rightarrow> problem list \<Rightarrow> problem list" where
  "range_loop attempted num [] selected = selected"
| "range_loop attempted num (p # pool) selected =
     (if problem_key p \<notin> set attempted
      then (if int (length (selected @ [p])) \<ge> num then selected @ [p]
            else range_loop attempted num pool (selected @ [p]))
      else range_loop attempted num pool selected)"

text \<open>Specific-ratings mode, inner loop: the first problem of the pool that was not attempted.\<close>

fun first_unattempted :: "string list \<Rightarrow> problem list \<Rightarrow> problem option" where
  "first_unattempted attempted [] = None"
| "first_unattempted attempted (p # pool) =
     (if problem_key p \<notin> set attempted then Some p else first_unattempted attempted pool)"

text \<open>
  Specific-ratings mode, outer loop over the ratings; \<open>i\<close> counts the shuffles. A pool
  member has an integer rating, so as a dictionary it is not empty and \<open>if found\<close> holds
  exactly when the inner loop found one.
\<close>

fun specific_loop ::
  "(nat \<Rightarrow> problem list \<Rightarrow> problem list) \<Rightarrow> string list \<Rightarrow> problem list \<Rightarrow> int \<Rightarrow>
   nat \<Rightarrow> int list \<Rightarrow> problem list \<Rightarrow> problem list" where
  "specific_loop shuffle attempted problems num i [] selected = selected"
| "specific_loop shuffle attempted problems num i (r # rs) selected =
     (let pool = shuffle i (filter (in_window (r - 50) (r + 50)) problems);
          selected' = (case first_unattempted attempted pool of
                         None \<Rightarrow> selected
                       | Some found \<Rightarrow> selected @ [found])
      in if int (length selected') \<ge> num then selected'
         else specific_loop shuffle attempted problems num (Suc i) rs selected')"

definition range_mode :: "int list \<Rightarrow> int \<Rightarrow> bool" where
  "range_mode rs num = (length rs = 2 \<and> num > 2)"

definition select_problems_for_battle ::
  "(nat \<Rightarrow> problem list \<Rightarrow> problem list) \<Rightarrow> problem list \<Rightarrow> (string \<Rightarrow> submission list) \<Rightarrow>
   int list \<Rightarrow> (user_id \<times> string) list \<Rightarrow> int \<Rightarrow> problem list" where
  "select_problems_for_battle shuffle problems history rs ps num =
     (if problems = [] then []
      else let attempted = attempted_keys history ps in
        if range_mode rs num
        then (let min_r = fold min (tl rs) (hd rs); max_r = fold max (tl rs) (hd rs);
                  pool = shuffle 0 (filter (in_window (min_r - 50) (max_r + 50)) problems)
              in range_loop attempted num pool [])
        else specific_loop shuffle attempted problems num 0 rs [])"

section \<open>Running a battle\<close>

datatype entry_outcome = NoBattleToRun | Aborted | Started

text \<open>
  \<open>run_battle\<close> from the return of the selector to the start of the first round.
  \<open>ref\<close> is the dictionary the coroutine fetched from the registry when it started and
  \<open>selected\<close> what the selector returned. The failure notice is awaited before the
  registration is dropped, as is the database update before the first round.
\<close>

definition run_battle_selected :: "chat_id \<Rightarrow> nat \<Rightarrow> problem list \<Rightarrow> world \<Rightarrow> entry_outcome \<times> world" where
  "run_battle_selected chat ref selected w =
     (case heap w ref of
        None \<Rightarrow> (NoBattleToRun, w)
      | Some st \<Rightarrow>
          (let w1 = upd_battle ref (\<lambda>b. b\<lparr>selected_problems := selected\<rparr>) w in
           if selected = [] \<or> int (length selected) < num_problems st
           then (Aborted,
                 w1\<lparr>sent := sent w1 @ [(chat, SelectFailed (length selected) (num_problems st))],
                    ACTIVE_BATTLES := (ACTIVE_BATTLES w1)(chat := None)\<rparr>)
           else (Started, increment_battles chat (map fst (participants st)) w1)))"

text \<open>
  \<open>run_battle\<close> up to the first round, with the selector run on the battle's own
  ratings, participants and problem count.
\<close>

definition run_battle_entry ::
  "(nat \<Rightarrow> problem list \<Rightarrow> problem list) \<Rightarrow> problem list \<Rightarrow> (string \<Rightarrow> submission list) \<Rightarrow>
   chat_id \<Rightarrow> world \<Rightarrow> entry_outcome \<times> world" where
  "run_battle_entry shuffle problems history chat w =
     (case battle_of w chat of
        None \<Rightarrow> (NoBattleToRun, w)
      | Some (ref, st) \<Rightarrow>
          run_battle_selected chat ref
            (select_problems_for_battle shuffle problems history
               (ratings st) (participants st) (num_problems st)) w)"

text \<open>The head of one iteration of the rounds loop.\<close>

definition round_start :: "nat \<Rightarrow> int \<Rightarrow> world \<Rightarrow> world" where
  "round_start ref idx w =
     upd_battle ref (\<lambda>b. b\<lparr>round := idx, round_winner := None, round_finished := False\<rparr>) w"

text \<open>
  \<open>post_round\<close> works on whatever battle the chat has registered at that moment.
  \<open>send\<close> is the outcome of \<open>send_message\<close>: when it raises, neither
  \<open>current_problem\<close> nor \<open>current_round_msg\<close> is stored.
\<close>

definition post_round :: "chat_id \<Rightarrow> int \<Rightarrow> problem \<Rightarrow> msg_id option \<Rightarrow> world \<Rightarrow> world" where
  "post_round chat round_idx prob send w =
     (case battle_of w chat of
        None \<Rightarrow> w
      | Some (ref, st) \<Rightarrow>
          (let w1 = w\<lparr>sent := sent w @ [(chat, RoundPosted round_idx prob)]\<rparr> in
           case send of
             None \<Rightarrow> w1
           | Some mid \<Rightarrow>
               upd_battle ref (\<lambda>b. b\<lparr>current_problem := Some prob, current_round_msg := Some mid\<rparr>) w1))"

datatype poll_outcome = KeepWaiting | StopCancelled | RoundOver

text \<open>
  One pass of the \<open>while True\<close> wait after its \<open>sleep(1)\<close>, with the test that follows
  the loop: a cancelled battle ends \<open>run_battle\<close> on the spot.
\<close>

definition poll_round :: "nat \<Rightarrow> world \<Rightarrow> poll_outcome \<times> world" where
  "poll_round ref w =
     (case heap w ref of
        None \<Rightarrow> (KeepWaiting, w)
      | Some st \<Rightarrow>
          if round_finished st \<or> status st = Cancelled
          then (if status st = Cancelled then StopCancelled else RoundOver,
                upd_battle ref (\<lambda>b. b\<lparr>round_finished := False\<rparr>) w)
          else (KeepWaiting, w))"

definition finalize_battle :: "chat_id \<Rightarrow> world \<Rightarrow> world" where
  "finalize_battle chat w =
     (case battle_of w chat of
        None \<Rightarrow> w
      | Some (ref, st) \<Rightarrow>
          w\<lparr>sent := sent w @ [(chat, BattleFinished)],
            ACTIVE_BATTLES := (ACTIVE_BATTLES w)(chat := None)\<rparr>)"


section \<open>Claiming a round\<close>

datatype claim_result =
    Won string int
  | NoBattle
  | NotParticipant
  | AlreadyWon
  | NoAC
  | RaisedKeyError

text \<open>
  \<open>handle_finished_callback\<close> runs in two parts, split where it awaits the claimant's
  submissions. The first part makes the three checks and ends with the dictionary and
  the claimant's handle in hand.
\<close>

definition finished_check :: "chat_id \<Rightarrow> user_id \<Rightarrow> world \<Rightarrow> claim_result + (nat \<times> string)" where
  "finished_check chat uid w =
     (case battle_of w chat of
        None \<Rightarrow> Inl NoBattle
      | Some (ref, st) \<Rightarrow>
          (case map_of (participants st) uid of
             None \<Rightarrow> Inl NotParticipant
           | Some handle \<Rightarrow>
               if round_winner st \<noteq> None then Inl AlreadyWon else Inr (ref, handle)))"

text \<open>The test of the \<open>for s in subs\<close> loop against the stored \<open>current_problem\<close>.\<close>

definition accepted_on :: "problem \<Rightarrow> submission \<Rightarrow> bool" where
  "accepted_on cur s =
     (contestId (sub_problem s) = contestId cur \<and> index (sub_problem s) = index cur
      \<and> verdict s = Some ''OK'')"

fun has_accepted :: "problem \<Rightarrow> submission list \<Rightarrow> bool" where
  "has_accepted cur [] = False"
| "has_accepted cur (s # subs) = (if accepted_on cur s then True else has_accepted cur subs)"

text \<open>
  The second part, with \<open>subs\<close> the submissions that \<open>cf_user_status(handle, count=100)\<close>
  returned. The parameter \<open>round_idx\<close> is the round number carried by the button; the
  source uses it in its log line only. Reading \<open>st["current_problem"]\<close> raises
  \<open>KeyError\<close> when no round was ever posted and there is a submission to compare.
\<close>

definition finished_resolve ::
  "chat_id \<Rightarrow> user_id \<Rightarrow> int \<Rightarrow> nat \<Rightarrow> string \<Rightarrow> submission list \<Rightarrow> world \<Rightarrow> claim_result \<times> world" where
  "finished_resolve chat uid round_idx ref handle subs w =
     (case heap w ref of
        None \<Rightarrow> (NoBattle, w)
      | Some st \<Rightarrow>
          (case current_problem st of
             None \<Rightarrow> (if subs = [] then NoAC else RaisedKeyError, w)
           | Some cur \<Rightarrow>
               if has_accepted cur subs
               then (let w1 = upd_battle ref (\<lambda>b. b\<lparr>round_winner := Some (uid, handle)\<rparr>) w;
                         p = rating_to_points (or0 (rating cur));
                         w2 = add_points chat uid p True w1;
                         w3 = upd_battle ref (\<lambda>b. b\<lparr>round_finished := True\<rparr>) w2
                     in (Won handle p, w3))
               else (NoAC, w)))"

definition handle_finished_callback ::
  "chat_id \<Rightarrow> user_id \<Rightarrow> int \<Rightarrow> submission list \<Rightarrow> world \<Rightarrow> claim_result \<times> world" where
  "handle_finished_callback chat uid round_idx subs w =
     (case finished_check chat uid w of
        Inl r \<Rightarrow> (r, w)
      | Inr (ref, handle) \<Rightarrow> finished_resolve chat uid round_idx ref handle subs w)"

section \<open>Cancelling\<close>

text \<open>\<open>cmd_cancelbattle\<close>; \<open>mid\<close> is the id of the confirmation prompt the reply created.\<close>

definition cmd_cancelbattle :: "chat_id \<Rightarrow> user_id \<Rightarrow> msg_id \<Rightarrow> world \<Rightarrow> reply \<times> world" where
  "cmd_cancelbattle chat uid mid w =
     (case battle_of w chat of
        None \<Rightarrow> (ReplyNoActiveBattle, w)
      | Some (ref, st) \<Rightarrow>
          if creator st \<noteq> uid then (ReplyOnlyCreator, w)
          else (ReplyConfirmPrompt, w\<lparr>PENDING_CANCELS := (PENDING_CANCELS w)(chat \<mapsto> mid)\<rparr>))"

definition cmd_cancelround :: "chat_id \<Rightarrow> user_id \<Rightarrow> world \<Rightarrow> reply \<times> world" where
  "cmd_cancelround chat uid w =
     (case battle_of w chat of
        None \<Rightarrow> (ReplyNoActiveBattle, w)
      | Some (ref, st) \<Rightarrow>
          if creator st \<noteq> uid then (ReplyOnlyCreator, w)
          else if status st \<noteq> Running then (ReplyNotRunning, w)
          else if round st = 0 then (ReplyNoActiveRound, w)
          else (ReplyRoundCancelled (round st),
                upd_battle ref (\<lambda>b. b\<lparr>round_finished := True, round_winner := None\<rparr>) w))"

text \<open>
  The two buttons of the prompt. \<open>uid\<close> is the user who pressed the button
  (\<open>q.from_user.id\<close>); neither handler reads it.
\<close>

definition handle_confirm_cancel :: "chat_id \<Rightarrow> user_id \<Rightarrow> world \<Rightarrow> reply \<times> world" where
  "handle_confirm_cancel chat uid w =
     (case battle_of w chat of
        None \<Rightarrow> (EditNoLongerActive, w)
      | Some (ref, st) \<Rightarrow>
          (EditCancelledByCreator,
           (upd_battle ref (\<lambda>b. b\<lparr>status := Cancelled, round_finished := True\<rparr>) w)
             \<lparr>ACTIVE_BATTLES := (ACTIVE_BATTLES w)(chat := None),
              PENDING_CANCELS := (PENDING_CANCELS w)(chat := None)\<rparr>))"

definition handle_no_cancel :: "chat_id \<Rightarrow> user_id \<Rightarrow> world \<Rightarrow> reply \<times> world" where
  "handle_no_cancel chat uid w =
     (EditBattleContinues, w\<lparr>PENDING_CANCELS := (PENDING_CANCELS w)(chat := None)\<rparr>)"

section \<open>All interleavings\<close>

text \<open>
  The coroutines run on one event loop, so what happens between two \<open>await\<close>s of a
  coroutine is atomic. \<open>reachable\<close> has one rule for each such stretch that writes
  shared state, with the coroutine's local variables (the chat, the dictionary it
  holds, what an outside call returned) left arbitrary: every interleaving of the
  program's coroutines is a path of these rules.
\<close>

inductive step :: "world \<Rightarrow> world \<Rightarrow> bool" where
  s_sethandle: "step w (upsert_user chat uid full_name handle r w)"
| s_register:
    "get_user w chat uid = Some (full_name, handle, r) \<Longrightarrow>
     step w (register_battle chat (new_battle uid handle num rs) w)"
| s_announce: "step w (announce_battle chat ref mid w)"
| s_send: "step w (w\<lparr>sent := sent w @ [(chat, n)]\<rparr>)"
| s_ready: "step w (ready_join ref uid handle w)"
| s_elapse: "step w (countdown_elapse chat w)"
| s_pop: "step w (w\<lparr>ACTIVE_BATTLES := (ACTIVE_BATTLES w)(chat := None)\<rparr>)"
| s_selected: "step w (upd_battle ref (\<lambda>b. b\<lparr>selected_problems := selected\<rparr>) w)"
| s_increment: "step w (increment_battles chat user_ids w)"
| s_round_start: "step w (round_start ref idx w)"
| s_post_round:
    "step w (upd_battle ref (\<lambda>b. b\<lparr>current_problem := Some prob, current_round_msg := Some mid\<rparr>) w)"
| s_poll: "step w (snd (poll_round ref w))"
| s_winner: "step w (upd_battle ref (\<lambda>b. b\<lparr>round_winner := Some (uid, handle)\<rparr>) w)"
| s_add_points: "step w (add_points chat uid p first_solve w)"
| s_round_finished: "step w (upd_battle ref (\<lambda>b. b\<lparr>round_finished := True\<rparr>) w)"
| s_cancelround: "step w (snd (cmd_cancelround chat uid w))"
| s_pending: "step w (w\<lparr>PENDING_CANCELS := (PENDING_CANCELS w)(chat \<mapsto> mid)\<rparr>)"
| s_confirm_cancel: "step w (snd (handle_confirm_cancel chat uid w))"
| s_no_cancel: "step w (snd (handle_no_cancel chat uid w))"
| s_shutdown: "step w (w\<lparr>ACTIVE_BATTLES := Map.empty, PENDING_CANCELS := Map.empty\<rparr>)"

definition reachable :: "world \<Rightarrow> bool" where
  "reachable w = step\<^sup>*\<^sup>* init_world w"

section \<open>Invariants of the registry\<close>

text \<open>A running battle has at least two participants.\<close>

definition gated :: "world \<Rightarrow> bool" where
  "gated w = (\<forall>ref st. heap w ref = Some st \<longrightarrow> status st = Running \<longrightarrow> 2 \<le> length (participants st))"

text \<open>
  A registered reference has been handed out, and no two chats share one: every
  registration is of a freshly built dictionary.
\<close>

definition well_registered :: "world \<Rightarrow> bool" where
  "well_registered w =
     ((\<forall>chat ref. ACTIVE_BATTLES w chat = Some ref \<longrightarrow> ref < next_ref w)
      \<and> (\<forall>c1 c2 ref. ACTIVE_BATTLES w c1 = Some ref \<longrightarrow> ACTIVE_BATTLES w c2 = Some ref \<longrightarrow> c1 = c2))"

text \<open>A dictionary that no chat has registered and that is not running.\<close>

definition retired :: "nat \<Rightarrow> world \<Rightarrow> bool" where
  "retired ref w =
     (ref < next_ref w \<and> (\<forall>chat. ACTIVE_BATTLES w chat \<noteq> Some ref)
      \<and> (\<forall>st. heap w ref = Some st \<longrightarrow> status st \<noteq> Running))"


section \<open>Tasks and the dispatcher\<close>







definition award_stretch ::
  "chat_id \<Rightarrow> user_id \<Rightarrow> int \<Rightarrow> nat \<Rightarrow> string \<Rightarrow> submission list \<Rightarrow> world \<Rightarrow> claim_result \<times> world" where
  "award_stretch chat uid round_idx ref handle subs w =
     (case heap w ref of
        None \<Rightarrow> (NoBattle, w)
      | Some st \<Rightarrow>
          (case current_problem st of
             None \<Rightarrow> (if subs = [] then NoAC else RaisedKeyError, w)
           | Some cur \<Rightarrow>
               if has_accepted cur subs
               then (let w1 = upd_battle ref (\<lambda>b. b\<lparr>round_winner := Some (uid, handle)\<rparr>) w;
                         p = rating_to_points (or0 (rating cur))
                     in (Won handle p, add_points chat uid p True w1))
               else (NoAC, w)))"

definition finish_stretch :: "nat \<Rightarrow> world \<Rightarrow> world" where
  "finish_stretch ref w = upd_battle ref (\<lambda>b. b\<lparr>round_finished := True\<rparr>) w"
















section \<open>A battle of two, for the examples\<close>

definition two_sums :: problem where
  "two_sums = \<lparr>contestId = Some 1500, index = Some ''A'', name = Some ''Two Sums'', rating = PyInt 1200\<rparr>"

definition long_path :: problem where
  "long_path = \<lparr>contestId = Some 1501, index = Some ''C'', name = Some ''Long Path'', rating = PyInt 1400\<rparr>"

definition hard_one :: problem where
  "hard_one = \<lparr>contestId = Some 1600, index = Some ''F'', name = Some ''Hard One'', rating = PyInt 3500\<rparr>"

definition solved :: "problem \<Rightarrow> submission" where
  "solved p = \<lparr>sub_problem = p, verdict = Some ''OK''\<rparr>"

text \<open>Alice (user 1) and Bob (user 2) have set their handles in chat 7.\<close>

definition w_users :: world where
  "w_users = upsert_user 7 2 ''Bob'' ''bob'' 1400 (upsert_user 7 1 ''Alice'' ''alice'' 1500 init_world)"

text \<open>Alice creates a two-round battle, Bob joins, the countdown runs out.\<close>

definition w_joining :: world where
  "w_joining = snd (cmd_createbattle plain_int 7 1 [''2'', ''1200'', ''1400''] (Some 100) w_users)"

definition w_joined :: world where
  "w_joined = handle_ready_callback 7 2 w_joining"

definition w_running :: world where
  "w_running = countdown_elapse 7 w_joined"

text \<open>The selector returned \<open>two_sums\<close> and \<open>long_path\<close>; the first round is posted and open.\<close>

definition w_entered :: world where
  "w_entered = snd (run_battle_selected 7 0 [two_sums, long_path] w_running)"

definition w_round1 :: world where
  "w_round1 = post_round 7 1 two_sums (Some 101) (round_start 0 1 w_entered)"


text \<open>The same battle with \<open>hard_one\<close>, a problem rated 3500, as the problem of the first round.\<close>

definition w_hard_round :: world where
  "w_hard_round =
     post_round 7 1 hard_one (Some 101)
       (round_start 0 1 (snd (run_battle_selected 7 0 [hard_one, two_sums] w_running)))"

text \<open>Alice has asked to cancel during the first round; the prompt is message 103.\<close>

definition w_prompted :: world where
  "w_prompted = snd (cmd_cancelbattle 7 1 103 w_round1)"

text \<open>Alice alone in a joining battle.\<close>

definition w_alone :: world where
  "w_alone = snd (cmd_createbattle plain_int 7 1 [''1'', ''1200''] (Some 100) w_users)"

text \<open>A small catalog, two shuffles and two submission histories for the selector.\<close>

definition catalog :: "problem list" where
  "catalog =
     [\<lparr>contestId = Some 1000, index = Some ''A'', name = Some ''Easy'', rating = PyInt 1000\<rparr>,
      \<lparr>contestId = Some 1001, index = Some ''B'', name = Some ''Tried'', rating = PyInt 1250\<rparr>,
      \<lparr>contestId = Some 1002, index = Some ''C'', name = Some ''Medium'', rating = PyInt 1500\<rparr>,
      \<lparr>contestId = Some 1003, index = Some ''D'', name = Some ''Edge'', rating = PyInt 1540\<rparr>,
      \<lparr>contestId = Some 1004, index = Some ''E'', name = Some ''Far'', rating = PyInt 2000\<rparr>,
      \<lparr>contestId = Some 1005, index = Some ''F'', name = Some ''Unrated'', rating = PyNone\<rparr>]"

definition keep_order :: "nat \<Rightarrow> problem list \<Rightarrow> problem list" where
  "keep_order i xs = xs"

definition reversing :: "nat \<Rightarrow> problem list \<Rightarrow> problem list" where
  "reversing i xs = rev xs"

definition no_history :: "string \<Rightarrow> submission list" where
  "no_history handle = []"

definition bob_tried :: "string \<Rightarrow> submission list" where
  "bob_tried handle =
     (if handle = ''bob''
      then [\<lparr>sub_problem = \<lparr>contestId = Some 1001, index = Some ''B'', name = Some ''Tried'',
                               rating = PyInt 1250\<rparr>,
              verdict = Some ''WRONG_ANSWER''\<rparr>]
      else [])"

text \<open>The dictionaries of the example battle at the moments the examples look at.\<close>

definition st_joined :: battle where
  "st_joined = \<lparr>creator = 1, creator_handle = ''alice'',
      participants = [(1, ''alice''), (2, ''bob'')], num_problems = 2, ratings = [1200, 1400],
      selected_problems = [], round = 0, message_id = Some 100, status = Joining,
      round_winner = None, round_finished = False, current_problem = None,
      current_round_msg = None\<rparr>"

definition st_alone :: battle where
  "st_alone = \<lparr>creator = 1, creator_handle = ''alice'',
      participants = [(1, ''alice'')], num_problems = 1, ratings = [1200],
      selected_problems = [], round = 0, message_id = Some 100, status = Joining,
      round_winner = None, round_finished = False, current_problem = None,
      current_round_msg = None\<rparr>"

definition st_round1 :: battle where
  "st_round1 = \<lparr>creator = 1, creator_handle = ''alice'',
      participants = [(1, ''alice''), (2, ''bob'')], num_problems = 2, ratings = [1200, 1400],
      selected_problems = [two_sums, long_path], round = 1, message_id = Some 100,
      status = Running, round_winner = None, round_finished = False,
      current_problem = Some two_sums, current_round_msg = Some 101\<rparr>"

definition st_hard :: battle where
  "st_hard = \<lparr>creator = 1, creator_handle = ''alice'',
      participants = [(1, ''alice''), (2, ''bob'')], num_problems = 2, ratings = [1200, 1400],
      selected_problems = [hard_one, two_sums], round = 1, message_id = Some 100,
      status = Running, round_winner = None, round_finished = False,
      current_problem = Some hard_one, current_round_msg = Some 101\<rparr>"










text \<open>
  Alice wins round 1 and the supervisor notices the finished round; during the pause
  that follows Alice sends \<open>/cancelround\<close>, and then Bob presses a \<open>Finished\<close> button.
\<close>

definition w_alice_won :: world where
  "w_alice_won = snd (handle_finished_callback 7 1 1 [solved two_sums] w_round1)"

definition w_polled :: world where
  "w_polled = snd (poll_round 0 w_alice_won)"

definition w_reopened :: world where
  "w_reopened = snd (cmd_cancelround 7 1 w_polled)"

definition w_won_twice :: world where
  "w_won_twice = snd (handle_finished_callback 7 2 1 [solved two_sums] w_reopened)"

text \<open>
  Two resolutions of claims for round 1 that have both passed \<open>finished_check\<close> in
  \<open>w_round1\<close> before either continues with its submissions.
\<close>

definition w_both_won :: world where
  "w_both_won =
     snd (finished_resolve 7 2 1 0 ''bob'' [solved two_sums]
            (snd (finished_resolve 7 1 1 0 ''alice'' [solved two_sums] w_round1)))"

text \<open>
  Alice, alone in a joining battle, cancels it and creates a second one at once
  (announcement 104), before the countdown of the first has made its next tick. That
  countdown goes on with the second battle and is the first to run out: it sends the
  notice. While the notice is on its way Bob joins and the second battle's own
  countdown runs out; then the notice returns and the first countdown drops the
  registration.
\<close>

definition w_first_gone :: world where
  "w_first_gone = snd (handle_confirm_cancel 7 1 (snd (cmd_cancelbattle 7 1 103 w_alone)))"

definition w_second :: world where
  "w_second = snd (cmd_createbattle plain_int 7 1 [''1'', ''1200''] (Some 104) w_first_gone)"

definition w_noticed :: world where
  "w_noticed = countdown_elapse 7 w_second"

definition w_bob_in :: world where
  "w_bob_in = handle_ready_callback 7 2 w_noticed"

definition w_set_running :: world where
  "w_set_running = countdown_elapse 7 w_bob_in"

definition w_dropped :: world where
  "w_dropped = countdown_drop 7 w_set_running"




section \<open>The point model is total and follows the band table\<close>

lemma scan_band:
  assumes "800 + 100 * int k \<le> r" "r \<le> 899 + 100 * int k" "k < 23"
  shows "point_scan POINT_MAP r = band_values ! k"
proof -
  from assms(3) have "k \<in> {0,1,2,3,4,5,6,7,8,9,10,11,12,13,14,15,16,17,18,19,20,21,22}"
    by (simp; arith)
  then show ?thesis using assms(1,2)
    by (auto simp: POINT_MAP_def band_values_def)
qed

lemma rating_to_points_int: "rating_to_points (PyInt r) = pointsFor_spec r"
proof (cases "800 \<le> r \<and> r \<le> 3099")
  case True
  define k where "k = nat ((r - 800) div 100)"
  have "k < 23" using True unfolding k_def by linarith
  moreover have "800 + 100 * int k \<le> r" "r \<le> 899 + 100 * int k"
    using True unfolding k_def by linarith+
  ultimately show ?thesis using scan_band[of k r] True
    by (simp add: pointsFor_spec_def k_def)
next
  case False
  then show ?thesis by (auto simp: pointsFor_spec_def POINT_MAP_def)
qed

text \<open>
  Claim C4. \<open>rating_to_points\<close> returns a value on every input: on an integer rating
  it is the value of the band table for the 100-wide band that holds the rating
  (\<open>pointsFor_spec\<close>: the table entry number \<open>(r - 800) div 100\<close> for \<open>r\<close> from 800 to
  3099, and 0 below 800 and from 3100 on), and on a missing or non-integer rating it
  is 0.
\<close>

theorem rating_to_points_total:
  "rating_to_points (PyInt r) = pointsFor_spec r
   \<and> rating_to_points PyNone = 0
   \<and> rating_to_points (PyOther truthy) = 0"
  using rating_to_points_int[of r] by simp

section \<open>What the selector returns\<close>

lemma range_loop_subset:
  "set (range_loop attempted num pool selected)
     \<subseteq> set selected \<union> {p \<in> set pool. problem_key p \<notin> set attempted}"
proof (induction pool arbitrary: selected)
  case Nil
  show ?case by simp
next
  case (Cons p pool)
  show ?case using Cons.IH[of "selected @ [p]"] Cons.IH[of selected] by auto
qed

lemma range_loop_unattempted:
  "\<forall>p \<in> set (range_loop attempted num pool []). problem_key p \<notin> set attempted"
  using range_loop_subset[of attempted num pool "[]"] by auto

lemma range_loop_length:
  "int (length selected) < num \<Longrightarrow> int (length (range_loop attempted num pool selected)) \<le> num"
  by (induction pool arbitrary: selected) auto

lemma range_loop_distinct:
  "distinct (map problem_key (selected @ pool)) \<Longrightarrow>
   distinct (map problem_key (range_loop attempted num pool selected))"
proof (induction pool arbitrary: selected)
  case Nil
  then show ?case by simp
next
  case (Cons p pool)
  have keep: "distinct (map problem_key ((selected @ [p]) @ pool))"
    using Cons.prems by simp
  have skip: "distinct (map problem_key (selected @ pool))"
    using Cons.prems by simp
  have stop: "distinct (map problem_key (selected @ [p]))"
    using Cons.prems by simp
  show ?case
    using Cons.IH[OF keep] Cons.IH[OF skip] stop by simp
qed

lemma first_unattempted_Some:
  "first_unattempted attempted pool = Some p \<Longrightarrow> problem_key p \<notin> set attempted \<and> p \<in> set pool"
  by (induction pool) (auto split: if_splits)

lemma specific_loop_unattempted:
  "\<forall>p \<in> set selected. problem_key p \<notin> set attempted \<Longrightarrow>
   \<forall>p \<in> set (specific_loop shuffle attempted problems num i rs selected).
      problem_key p \<notin> set attempted"
proof (induction rs arbitrary: selected i)
  case Nil
  then show ?case by simp
next
  case (Cons r rs)
  show ?case
  proof (cases "first_unattempted attempted (shuffle i (filter (in_window (r - 50) (r + 50)) problems))")
    case None
    then show ?thesis using Cons.IH[OF Cons.prems] Cons.prems by (simp add: Let_def)
  next
    case (Some found)
    then have "problem_key found \<notin> set attempted"
      using first_unattempted_Some by blast
    then have ok: "\<forall>p \<in> set (selected @ [found]). problem_key p \<notin> set attempted"
      using Cons.prems by simp
    show ?thesis using Cons.IH[OF ok] ok Some by (simp add: Let_def)
  qed
qed

lemma specific_loop_length:
  "int (length selected) < num \<Longrightarrow>
   int (length (specific_loop shuffle attempted problems num i rs selected)) \<le> num"
proof (induction rs arbitrary: selected i)
  case Nil
  then show ?case by simp
next
  case (Cons r rs)
  then show ?case
    by (cases "first_unattempted attempted (shuffle i (filter (in_window (r - 50) (r + 50)) problems))")
       (auto simp: Let_def)
qed

lemma shuffle_distinct_keys:
  assumes "mset ys = mset xs" "distinct (map problem_key xs)"
  shows "distinct (map problem_key ys)"
proof -
  have "mset (map problem_key ys) = mset (map problem_key xs)"
    using assms(1) by (metis mset_map)
  then show ?thesis using assms(2) by (metis mset_eq_imp_distinct_iff)
qed

text \<open>
  Claim C2, as the code has it. In both modes no selected problem has a key in the
  attempted set (the keys of the submissions fetched for the participants), and for a
  problem count of at least 1 the result is no longer than the problem count. In range
  mode the result has no duplicate key when the catalog has none and the shuffle is a
  reordering. Specific-ratings mode makes no such promise: each rating draws from the
  whole catalog again.
\<close>

theorem selector_contract:
  fixes shuffle problems history rs ps num
  defines "res \<equiv> select_problems_for_battle shuffle problems history rs ps num"
  shows "(\<forall>p \<in> set res. problem_key p \<notin> set (attempted_keys history ps))
       \<and> (1 \<le> num \<longrightarrow> int (length res) \<le> num)
       \<and> (range_mode rs num \<and> distinct (map problem_key problems)
            \<and> (\<forall>xs. mset (shuffle 0 xs) = mset xs)
          \<longrightarrow> distinct (map problem_key res))"
proof (intro conjI impI)
  show "\<forall>p \<in> set res. problem_key p \<notin> set (attempted_keys history ps)"
    unfolding res_def select_problems_for_battle_def
    using range_loop_unattempted specific_loop_unattempted[of "[]"]
    by (simp add: Let_def)
next
  assume "1 \<le> num"
  then have "int (length ([]::problem list)) < num" by simp
  then show "int (length res) \<le> num"
    unfolding res_def select_problems_for_battle_def
    using range_loop_length[of "[]" num] specific_loop_length[of "[]" num] \<open>1 \<le> num\<close>
    by (simp add: Let_def)
next
  assume a: "range_mode rs num \<and> distinct (map problem_key problems)
            \<and> (\<forall>xs. mset (shuffle 0 xs) = mset xs)"
  define lo where "lo = fold min (tl rs) (hd rs) - 50"
  define hi where "hi = fold max (tl rs) (hd rs) + 50"
  have "distinct (map problem_key (filter (in_window lo hi) problems))"
    using a by (simp add: distinct_map_filter)
  then have "distinct (map problem_key (shuffle 0 (filter (in_window lo hi) problems)))"
    using a shuffle_distinct_keys by blast
  then have "distinct (map problem_key (range_loop (attempted_keys history ps) num
                (shuffle 0 (filter (in_window lo hi) problems)) []))"
    using range_loop_distinct[of "[]"] by simp
  then show "distinct (map problem_key res)"
    unfolding res_def select_problems_for_battle_def using a
    by (simp add: Let_def lo_def hi_def)
qed

theorem selector_contract_witness:
  "1 \<le> (3::int)
   \<and> range_mode [1000, 1500] 3
   \<and> distinct (map problem_key catalog)
   \<and> (\<forall>xs. mset (reversing 0 xs) = mset xs)
   \<and> map problem_key
       (select_problems_for_battle reversing catalog bob_tried [1000, 1500]
          [(1, ''alice''), (2, ''bob'')] 3) = [''1003-D'', ''1002-C'', ''1000-A'']
   \<and> attempted_keys bob_tried [(1, ''alice''), (2, ''bob'')] = [''1001-B'']
   \<and> ''1001-B'' \<notin> problem_key `
         set (select_problems_for_battle reversing catalog bob_tried [1000, 1500]
                [(1, ''alice''), (2, ''bob'')] 3)
   \<and> int (length (select_problems_for_battle reversing catalog bob_tried [1000, 1500]
                    [(1, ''alice''), (2, ''bob'')] 3)) \<le> 3
   \<and> distinct (map problem_key
        (select_problems_for_battle reversing catalog bob_tried [1000, 1500]
           [(1, ''alice''), (2, ''bob'')] 3))"
proof -
  have mode: "range_mode [1000, 1500] 3" by (simp add: range_mode_def)
  have cat: "distinct (map problem_key catalog)" by code_simp
  have perm: "\<forall>xs. mset (reversing 0 xs) = mset xs" by (simp add: reversing_def)
  have run: "map problem_key
       (select_problems_for_battle reversing catalog bob_tried [1000, 1500]
          [(1, ''alice''), (2, ''bob'')] 3) = [''1003-D'', ''1002-C'', ''1000-A'']"
    by code_simp
  have att: "attempted_keys bob_tried [(1, ''alice''), (2, ''bob'')] = [''1001-B'']"
    by code_simp
  show ?thesis
    using selector_contract[of reversing catalog bob_tried "[1000, 1500]" "[(1, ''alice''), (2, ''bob'')]" 3]
          mode cat perm run att
    by auto
qed

text \<open>
  In specific-ratings mode two ratings whose windows share the only unattempted
  problem select it twice: the result of a two-round request has a duplicate.
\<close>

theorem selector_duplicates_counterexample:
  "select_problems_for_battle keep_order [two_sums] no_history [1200, 1200]
     [(1, ''alice''), (2, ''bob'')] 2 = [two_sums, two_sums]
   \<and> \<not> range_mode [1200, 1200] 2
   \<and> \<not> distinct (map problem_key
          (select_problems_for_battle keep_order [two_sums] no_history [1200, 1200]
             [(1, ''alice''), (2, ''bob'')] 2))"
  by code_simp

section \<open>Facts about the shared state\<close>

lemma heap_upd_battle:
  "heap (upd_battle r f w) ref = (if ref = r then map_option f (heap w r) else heap w ref)"
  by (simp add: upd_battle_def split: option.splits)

lemma upd_battle_fields:
  "ACTIVE_BATTLES (upd_battle r f w) = ACTIVE_BATTLES w"
  "PENDING_CANCELS (upd_battle r f w) = PENDING_CANCELS w"
  "next_ref (upd_battle r f w) = next_ref w"
  "users (upd_battle r f w) = users w"
  "points (upd_battle r f w) = points w"
  "sent (upd_battle r f w) = sent w"
  "spawned (upd_battle r f w) = spawned w"
  by (simp_all add: upd_battle_def split: option.splits)

lemma battle_of_SomeD:
  "battle_of w chat = Some (ref, st) \<Longrightarrow> ACTIVE_BATTLES w chat = Some ref \<and> heap w ref = Some st"
  by (auto simp: battle_of_def split: option.splits)

lemma battle_of_upd_battle:
  "battle_of (upd_battle r f w) chat =
     (case battle_of w chat of
        None \<Rightarrow> None
      | Some (ref, st) \<Rightarrow> Some (ref, if ref = r then f st else st))"
  by (auto simp: battle_of_def upd_battle_fields heap_upd_battle split: option.splits)

lemma add_points_fields:
  "heap (add_points chat uid p fs w) = heap w"
  "ACTIVE_BATTLES (add_points chat uid p fs w) = ACTIVE_BATTLES w"
  "PENDING_CANCELS (add_points chat uid p fs w) = PENDING_CANCELS w"
  "next_ref (add_points chat uid p fs w) = next_ref w"
  "sent (add_points chat uid p fs w) = sent w"
  "spawned (add_points chat uid p fs w) = spawned w"
  by (simp_all add: add_points_def Let_def split: option.splits)

lemma battle_of_add_points: "battle_of (add_points chat uid p fs w) c = battle_of w c"
  by (simp add: battle_of_def add_points_fields split: option.splits)

lemma points_add_points:
  "points (add_points chat uid p fs w) =
     (points w)((chat, uid) \<mapsto>
        (let row = (case points w (chat, uid) of None \<Rightarrow> zero_row | Some row \<Rightarrow> row)
         in if fs then row\<lparr>pts := pts row + p, first_solves := first_solves row + 1\<rparr>
            else row\<lparr>pts := pts row + p\<rparr>))"
  by (auto simp: add_points_def insert_or_ignore_def Let_def split: option.splits)

lemma countdown_elapse_eq:
  "countdown_elapse chat w =
     (case battle_of w chat of
        None \<Rightarrow> w
      | Some (ref, st) \<Rightarrow>
          if length (participants st) < 2
          then w\<lparr>sent := sent w @ [(chat, NotEnoughParticipants)]\<rparr>
          else (upd_battle ref (\<lambda>b. b\<lparr>status := Running\<rparr>) w)
                 \<lparr>spawned := spawned w @ [RunBattle chat]\<rparr>)"
  by (simp add: countdown_elapse_def countdown_tail_def split: option.splits)

lemma has_accepted_iff: "has_accepted cur subs \<longleftrightarrow> (\<exists>s \<in> set subs. accepted_on cur s)"
  by (induction subs) auto

section \<open>Invalid creation requests\<close>

lemma convert_ratings_set:
  "convert_ratings py_int xs = Inr rs \<Longrightarrow> x \<in> set xs \<Longrightarrow> py_int x = Some r \<Longrightarrow> r \<in> set rs"
  by (induction xs arbitrary: rs) (auto split: option.splits sum.splits)

lemma validate_ratings_ok:
  "validate_ratings rs = Inr u \<Longrightarrow> r \<in> set rs \<Longrightarrow> 800 \<le> r \<and> r \<le> 3500"
  by (induction rs) (auto split: if_splits)

lemma parse_rejects:
  assumes "length args < 2
     \<or> (\<exists>n. py_int (hd args) = Some n \<and> (n < 1 \<or> 10 < n))
     \<or> (\<exists>x \<in> set (tl args). \<exists>r. py_int x = Some r \<and> (r < 800 \<or> 3500 < r))"
  shows "\<exists>e. parse_create_args py_int args = Inl e"
proof (cases args)
  case Nil
  then show ?thesis by simp
next
  case (Cons a rest)
  show ?thesis
  proof (cases rest)
    case Nil
    with Cons show ?thesis by simp
  next
    case (Cons b more)
    note args = \<open>args = a # rest\<close> Cons
    show ?thesis
    proof (cases "parse_create_args py_int args")
      case (Inl e)
      then show ?thesis by blast
    next
      case (Inr res)
      obtain num rs where res: "res = (num, rs)" by (cases res)
      from Inr res args obtain u where
        n: "py_int a = Some num" "\<not> (num < 1 \<or> num > 10)" and
        c: "convert_ratings py_int rest = Inr rs" and v: "validate_ratings rs = Inr u"
        by (auto split: option.splits if_splits sum.splits)
      from assms args n have "\<exists>x \<in> set rest. \<exists>r. py_int x = Some r \<and> (r < 800 \<or> 3500 < r)"
        by auto
      then obtain x r where "x \<in> set rest" "py_int x = Some r" "r < 800 \<or> 3500 < r" by blast
      then have "r \<in> set rs" using convert_ratings_set[OF c] by blast
      then have "800 \<le> r \<and> r \<le> 3500" using validate_ratings_ok[OF v] by blast
      with \<open>r < 800 \<or> 3500 < r\<close> show ?thesis by linarith
    qed
  qed
qed

text \<open>
  Claim C8. A creation request whose arguments are invalid (fewer than two arguments,
  a problem count outside 1--10, or a rating outside 800--3500) makes
  \<open>parse_create_args\<close> raise; \<open>cmd_createbattle\<close> then answers with a message and
  returns the shared state as it was, so no battle is registered. The message names
  the parse error unless the chat already had a battle or the user had no handle,
  which are answered first.
\<close>

theorem createbattle_rejects_invalid:
  assumes "length args < 2
     \<or> (\<exists>n. py_int (hd args) = Some n \<and> (n < 1 \<or> 10 < n))
     \<or> (\<exists>x \<in> set (tl args). \<exists>r. py_int x = Some r \<and> (r < 800 \<or> 3500 < r))"
  shows "\<exists>e. parse_create_args py_int args = Inl e
     \<and> snd (cmd_createbattle py_int chat uid args send w) = w
     \<and> fst (cmd_createbattle py_int chat uid args send w) =
         (if chat \<in> dom (ACTIVE_BATTLES w) then ReplyAlreadyActive
          else if get_user w chat uid = None then ReplyNeedHandle
          else ReplyInvalidArgs e)"
proof -
  from parse_rejects[OF assms] obtain e where e: "parse_create_args py_int args = Inl e" by blast
  show ?thesis
    using e by (auto simp: cmd_createbattle_def split: option.splits)
qed

theorem createbattle_rejects_invalid_witness:
  "cmd_createbattle plain_int 7 1 [''11'', ''1200''] (Some 100) w_users
     = (ReplyInvalidArgs BadNumProblems, w_users)
   \<and> cmd_createbattle plain_int 7 1 [''3'', ''1200'', ''3600''] (Some 100) w_users
     = (ReplyInvalidArgs BadRating, w_users)
   \<and> cmd_createbattle plain_int 7 1 [''3''] (Some 100) w_users
     = (ReplyInvalidArgs NeedTwoArgs, w_users)"
proof -
  have free: "7 \<notin> dom (ACTIVE_BATTLES w_users)"
    by (simp add: w_users_def upsert_user_def init_world_def)
  have known: "get_user w_users 7 1 \<noteq> None"
    by (simp add: w_users_def upsert_user_def init_world_def get_user_def)
  have h1: "length [''11'', ''1200''] < 2
     \<or> (\<exists>n. plain_int (hd [''11'', ''1200'']) = Some n \<and> (n < 1 \<or> 10 < n))
     \<or> (\<exists>x \<in> set (tl [''11'', ''1200'']). \<exists>r. plain_int x = Some r \<and> (r < 800 \<or> 3500 < r))"
  proof -
    have "plain_int ''11'' = Some 11" by code_simp
    then show ?thesis by simp
  qed
  have h2: "length [''3'', ''1200'', ''3600''] < 2
     \<or> (\<exists>n. plain_int (hd [''3'', ''1200'', ''3600'']) = Some n \<and> (n < 1 \<or> 10 < n))
     \<or> (\<exists>x \<in> set (tl [''3'', ''1200'', ''3600'']). \<exists>r. plain_int x = Some r \<and> (r < 800 \<or> 3500 < r))"
  proof -
    have "plain_int ''3600'' = Some 3600" by code_simp
    then show ?thesis by simp
  qed
  have h3: "length [''3''] < 2
     \<or> (\<exists>n. plain_int (hd [''3'']) = Some n \<and> (n < 1 \<or> 10 < n))
     \<or> (\<exists>x \<in> set (tl [''3'']). \<exists>r. plain_int x = Some r \<and> (r < 800 \<or> 3500 < r))"
    by simp
  have p1: "parse_create_args plain_int [''11'', ''1200''] = Inl BadNumProblems" by code_simp
  have p2: "parse_create_args plain_int [''3'', ''1200'', ''3600''] = Inl BadRating" by code_simp
  have p3: "parse_create_args plain_int [''3''] = Inl NeedTwoArgs" by code_simp
  show ?thesis
    using createbattle_rejects_invalid[OF h1, of 7 1 "Some 100" w_users]
          createbattle_rejects_invalid[OF h2, of 7 1 "Some 100" w_users]
          createbattle_rejects_invalid[OF h3, of 7 1 "Some 100" w_users]
          free known p1 p2 p3
    by (auto simp: prod_eq_iff)
qed

section \<open>A claim is checked against the stored problem\<close>





section \<open>A win on a problem outside the bands\<close>

lemma or0_int: "or0 (PyInt r) = PyInt r"
  by simp

lemma outside_bands_zero:
  assumes "\<forall>r. rating cur = PyInt r \<longrightarrow> r < 800 \<or> 3099 < r"
  shows "rating_to_points (or0 (rating cur)) = 0"
proof (cases "rating cur")
  case (PyInt r)
  then have "r < 800 \<or> 3099 < r" using assms by simp
  then have "pointsFor_spec r = 0" by (auto simp: pointsFor_spec_def)
  then show ?thesis using PyInt rating_to_points_int[of r] by (simp only: or0_int)
next
  case PyNone
  then show ?thesis using rating_to_points_int[of 0] by (simp add: pointsFor_spec_def)
next
  case (PyOther t)
  then show ?thesis using rating_to_points_int[of 0] by (simp add: pointsFor_spec_def)
qed

text \<open>
  Claim C10. When a participant wins a round whose problem has a rating outside
  800--3099 (3100--3500 included) or no integer rating at all, the award is 0 points
  and the win is recorded all the same: the battle holds the winner, the round is
  marked finished, and the winner's row has \<open>first_solves\<close> one higher and nothing
  else changed (a missing row is created first).
\<close>

theorem zero_point_win_recorded:
  assumes "battle_of w chat = Some (ref, st)"
      and "map_of (participants st) uid = Some handle"
      and "round_winner st = None"
      and "current_problem st = Some cur"
      and "\<exists>s \<in> set subs. accepted_on cur s"
      and "\<forall>r. rating cur = PyInt r \<longrightarrow> r < 800 \<or> 3099 < r"
  shows "\<exists>w'. handle_finished_callback chat uid round_idx subs w = (Won handle 0, w')
     \<and> battle_of w' chat = Some (ref, st\<lparr>round_winner := Some (uid, handle), round_finished := True\<rparr>)
     \<and> points w' = (points w)((chat, uid) \<mapsto>
          (case points w (chat, uid) of
             None \<Rightarrow> zero_row\<lparr>first_solves := 1\<rparr>
           | Some row \<Rightarrow> row\<lparr>first_solves := first_solves row + 1\<rparr>))"
proof -
  have chk: "finished_check chat uid w = Inr (ref, handle)"
    using assms(1-3) by (simp add: finished_check_def)
  have hp: "heap w ref = Some st" using assms(1) battle_of_SomeD by blast
  have z: "rating_to_points (or0 (rating cur)) = 0"
    using outside_bands_zero[OF assms(6)] .
  have acc: "has_accepted cur subs" using assms(5) by (simp add: has_accepted_iff)
  define w1 where "w1 = upd_battle ref (\<lambda>b. b\<lparr>round_winner := Some (uid, handle)\<rparr>) w"
  define w2 where "w2 = add_points chat uid 0 True w1"
  define w3 where "w3 = upd_battle ref (\<lambda>b. b\<lparr>round_finished := True\<rparr>) w2"
  have res: "handle_finished_callback chat uid round_idx subs w = (Won handle 0, w3)"
    using chk hp assms(4) acc z
    by (simp add: handle_finished_callback_def finished_resolve_def Let_def w1_def w2_def w3_def)
  have b: "battle_of w3 chat = Some (ref, st\<lparr>round_winner := Some (uid, handle), round_finished := True\<rparr>)"
    using assms(1)
    by (simp add: w3_def w2_def w1_def battle_of_upd_battle battle_of_add_points)
  have p: "points w3 = (points w)((chat, uid) \<mapsto>
          (case points w (chat, uid) of
             None \<Rightarrow> zero_row\<lparr>first_solves := 1\<rparr>
           | Some row \<Rightarrow> row\<lparr>first_solves := first_solves row + 1\<rparr>))"
    by (simp add: w3_def w2_def w1_def upd_battle_fields points_add_points Let_def zero_row_def
             split: option.splits)
  show ?thesis using res b p by blast
qed

theorem zero_point_win_recorded_witness:
  "battle_of w_hard_round 7 = Some (0, st_hard)
   \<and> rating hard_one = PyInt 3500
   \<and> points w_hard_round (7, 2) = Some \<lparr>pts = 0, battles = 1, first_solves = 0\<rparr>
   \<and> fst (handle_finished_callback 7 2 1 [solved hard_one] w_hard_round) = Won ''bob'' 0
   \<and> battle_of (snd (handle_finished_callback 7 2 1 [solved hard_one] w_hard_round)) 7
        = Some (0, st_hard\<lparr>round_winner := Some (2, ''bob''), round_finished := True\<rparr>)
   \<and> points (snd (handle_finished_callback 7 2 1 [solved hard_one] w_hard_round)) (7, 2)
        = Some \<lparr>pts = 0, battles = 1, first_solves = 1\<rparr>"
proof -
  have b: "battle_of w_hard_round 7 = Some (0, st_hard)" by code_simp
  have m: "map_of (participants st_hard) 2 = Some ''bob''" by (simp add: st_hard_def)
  have n: "round_winner st_hard = None" by (simp add: st_hard_def)
  have c: "current_problem st_hard = Some hard_one" by (simp add: st_hard_def)
  have a: "\<exists>s \<in> set [solved hard_one]. accepted_on hard_one s"
    by (simp add: accepted_on_def solved_def)
  have r: "rating hard_one = PyInt 3500" by (simp add: hard_one_def)
  then have o: "\<forall>r. rating hard_one = PyInt r \<longrightarrow> r < 800 \<or> 3099 < r" by simp
  have p: "points w_hard_round (7, 2) = Some \<lparr>pts = 0, battles = 1, first_solves = 0\<rparr>"
    by code_simp
  from zero_point_win_recorded[OF b m n c a o, of 1]
  obtain w' where w': "handle_finished_callback 7 2 1 [solved hard_one] w_hard_round = (Won ''bob'' 0, w')"
    "battle_of w' 7 = Some (0, st_hard\<lparr>round_winner := Some (2, ''bob''), round_finished := True\<rparr>)"
    "points w' = (points w_hard_round)((7, 2) \<mapsto>
          (case points w_hard_round (7, 2) of
             None \<Rightarrow> zero_row\<lparr>first_solves := 1\<rparr>
           | Some row \<Rightarrow> row\<lparr>first_solves := first_solves row + 1\<rparr>))"
    by blast
  show ?thesis using w' b r p by simp
qed

section \<open>What one step can do\<close>

lemma step_running:
  assumes "step w w'" "heap w' ref = Some st'" "status st' = Running"
  shows "\<exists>st. heap w ref = Some st \<and> length (participants st) \<le> length (participants st')
           \<and> (status st \<noteq> Running \<longrightarrow>
                (\<exists>chat. ACTIVE_BATTLES w chat = Some ref) \<and> 2 \<le> length (participants st'))"
  using assms(1)
proof (cases rule: step.cases)
  case (s_elapse chat)
  show ?thesis
  proof (cases "battle_of w chat")
    case None
    then show ?thesis using s_elapse assms(2,3) by (simp add: countdown_elapse_eq)
  next
    case (Some a)
    obtain r s where a: "a = (r, s)" by (cases a)
    note b = battle_of_SomeD[OF Some[unfolded a]]
    show ?thesis
    proof (cases "length (participants s) < 2")
      case True
      then show ?thesis using s_elapse assms(2,3) Some a by (simp add: countdown_elapse_eq)
    next
      case False
      then have h: "heap w' ref = (if ref = r then Some (s\<lparr>status := Running\<rparr>) else heap w ref)"
        using s_elapse Some a b by (simp add: countdown_elapse_eq heap_upd_battle)
      show ?thesis
      proof (cases "ref = r")
        case True
        then show ?thesis using h assms(2) b False by auto
      next
        case False
        then have "heap w ref = Some st'" using h assms(2) by simp
        then show ?thesis using assms(3) by simp
      qed
    qed
  qed
next
  case (s_register chat uid full_name handle r num rs)
  then show ?thesis using assms(2,3)
    by (auto simp: register_battle_def new_battle_def split: if_splits)
next
  case (s_ready ref' uid handle)
  then show ?thesis using assms(2,3)
    by (auto simp: ready_join_def heap_upd_battle split: if_splits)
next
  case (s_confirm_cancel chat uid)
  then show ?thesis using assms(2,3)
    by (auto simp: handle_confirm_cancel_def heap_upd_battle split: option.splits if_splits)
next
  case (s_cancelround chat uid)
  then show ?thesis using assms(2,3)
    by (auto simp: cmd_cancelround_def heap_upd_battle split: option.splits if_splits)
next
  case (s_poll ref')
  then show ?thesis using assms(2,3)
    by (auto simp: poll_round_def heap_upd_battle split: option.splits if_splits)
next
  case (s_sethandle chat uid full_name handle r)
  then show ?thesis using assms(2,3) by (simp add: upsert_user_def)
next
  case (s_announce chat ref' mid)
  then show ?thesis using assms(2,3)
    by (auto simp: announce_battle_def heap_upd_battle split: if_splits)
next
  case (s_send chat n)
  then show ?thesis using assms(2,3) by simp
next
  case (s_pop chat)
  then show ?thesis using assms(2,3) by simp
next
  case (s_selected ref' selected)
  then show ?thesis using assms(2,3) by (auto simp: heap_upd_battle split: if_splits)
next
  case (s_increment chat user_ids)
  then show ?thesis using assms(2,3) by (simp add: increment_battles_def)
next
  case (s_round_start ref' idx)
  then show ?thesis using assms(2,3)
    by (auto simp: round_start_def heap_upd_battle split: if_splits)
next
  case (s_post_round ref' prob mid)
  then show ?thesis using assms(2,3) by (auto simp: heap_upd_battle split: if_splits)
next
  case (s_winner ref' uid handle)
  then show ?thesis using assms(2,3) by (auto simp: heap_upd_battle split: if_splits)
next
  case (s_add_points chat uid p first_solve)
  then show ?thesis using assms(2,3) by (simp add: add_points_fields)
next
  case (s_round_finished ref')
  then show ?thesis using assms(2,3) by (auto simp: heap_upd_battle split: if_splits)
next
  case (s_pending chat mid)
  then show ?thesis using assms(2,3) by simp
next
  case (s_no_cancel chat uid)
  then show ?thesis using assms(2,3) by (simp add: handle_no_cancel_def)
next
  case s_shutdown
  then show ?thesis using assms(2,3) by simp
qed

lemma step_gated:
  assumes "step w w'" "gated w"
  shows "gated w'"
  unfolding gated_def
proof (intro allI impI)
  fix ref st'
  assume h: "heap w' ref = Some st'" "status st' = Running"
  from step_running[OF assms(1) h] obtain st where
    st: "heap w ref = Some st" "length (participants st) \<le> length (participants st')"
        "status st \<noteq> Running \<longrightarrow> 2 \<le> length (participants st')"
    by blast
  show "2 \<le> length (participants st')"
  proof (cases "status st = Running")
    case True
    then have "2 \<le> length (participants st)" using assms(2) st(1) by (simp add: gated_def)
    then show ?thesis using st(2) by simp
  next
    case False
    then show ?thesis using st(3) by simp
  qed
qed

lemma steps_gated: "step\<^sup>*\<^sup>* w w' \<Longrightarrow> gated w \<Longrightarrow> gated w'"
  by (induction rule: rtranclp_induct) (auto intro: step_gated)

lemma reachable_gated: "reachable w \<Longrightarrow> gated w"
  unfolding reachable_def
  using steps_gated[of init_world w] by (simp add: gated_def init_world_def)

lemma step_registry:
  assumes "step w w'" "ACTIVE_BATTLES w' chat = Some ref"
  shows "ACTIVE_BATTLES w chat = Some ref \<or> ref = next_ref w"
  using assms(1)
proof (cases rule: step.cases)
  case (s_elapse c)
  then show ?thesis using assms(2)
    by (auto simp: countdown_elapse_eq upd_battle_fields split: option.splits if_splits)
next
  case (s_register c uid full_name handle r num rs)
  then show ?thesis using assms(2) by (auto simp: register_battle_def split: if_splits)
next
  case (s_confirm_cancel c uid)
  then show ?thesis using assms(2)
    by (auto simp: handle_confirm_cancel_def upd_battle_fields split: option.splits if_splits)
next
  case (s_cancelround c uid)
  then show ?thesis using assms(2)
    by (auto simp: cmd_cancelround_def upd_battle_fields split: option.splits if_splits)
next
  case (s_poll ref')
  then show ?thesis using assms(2)
    by (auto simp: poll_round_def upd_battle_fields split: option.splits if_splits)
next
  case (s_pop c)
  then show ?thesis using assms(2) by (auto split: if_splits)
qed (use assms(2) in \<open>auto simp: upsert_user_def announce_battle_def ready_join_def
      increment_battles_def round_start_def handle_no_cancel_def upd_battle_fields
      add_points_fields\<close>)

lemma step_next_ref:
  assumes "step w w'"
  shows "next_ref w' = next_ref w \<or> (next_ref w' = Suc (next_ref w))"
  using assms
proof (cases rule: step.cases)
  case (s_elapse c)
  then show ?thesis
    by (auto simp: countdown_elapse_eq upd_battle_fields split: option.splits if_splits)
next
  case (s_confirm_cancel c uid)
  then show ?thesis
    by (auto simp: handle_confirm_cancel_def upd_battle_fields split: option.splits if_splits)
next
  case (s_cancelround c uid)
  then show ?thesis
    by (auto simp: cmd_cancelround_def upd_battle_fields split: option.splits if_splits)
next
  case (s_poll ref')
  then show ?thesis
    by (auto simp: poll_round_def upd_battle_fields split: option.splits if_splits)
qed (auto simp: upsert_user_def register_battle_def announce_battle_def ready_join_def
      increment_battles_def round_start_def handle_no_cancel_def upd_battle_fields
      add_points_fields)

lemma step_registers_fresh:
  assumes "step w w'" "ACTIVE_BATTLES w' chat = Some ref" "ACTIVE_BATTLES w chat \<noteq> Some ref"
  shows "ref = next_ref w \<and> next_ref w' = Suc (next_ref w)
         \<and> (\<forall>c. c \<noteq> chat \<longrightarrow> ACTIVE_BATTLES w' c = ACTIVE_BATTLES w c)"
  using assms(1)
proof (cases rule: step.cases)
  case (s_elapse c)
  then show ?thesis using assms(2,3)
    by (auto simp: countdown_elapse_eq upd_battle_fields split: option.splits if_splits)
next
  case (s_register c uid full_name handle r num rs)
  then show ?thesis using assms(2,3) by (auto simp: register_battle_def split: if_splits)
next
  case (s_confirm_cancel c uid)
  then show ?thesis using assms(2,3)
    by (auto simp: handle_confirm_cancel_def upd_battle_fields split: option.splits if_splits)
next
  case (s_cancelround c uid)
  then show ?thesis using assms(2,3)
    by (auto simp: cmd_cancelround_def upd_battle_fields split: option.splits if_splits)
next
  case (s_poll ref')
  then show ?thesis using assms(2,3)
    by (auto simp: poll_round_def upd_battle_fields split: option.splits if_splits)
next
  case (s_pop c)
  then show ?thesis using assms(2,3) by (auto split: if_splits)
qed (use assms(2,3) in \<open>auto simp: upsert_user_def announce_battle_def ready_join_def
      increment_battles_def round_start_def handle_no_cancel_def upd_battle_fields
      add_points_fields\<close>)

lemma step_well_registered:
  assumes "step w w'" "well_registered w"
  shows "well_registered w'"
  unfolding well_registered_def
proof (intro conjI allI impI)
  fix chat ref
  assume a: "ACTIVE_BATTLES w' chat = Some ref"
  show "ref < next_ref w'"
  proof (cases "ACTIVE_BATTLES w chat = Some ref")
    case True
    then have "ref < next_ref w" using assms(2) by (auto simp: well_registered_def)
    then show ?thesis using step_next_ref[OF assms(1)] by auto
  next
    case False
    then show ?thesis using step_registers_fresh[OF assms(1) a] by simp
  qed
next
  fix c1 c2 ref
  assume a1: "ACTIVE_BATTLES w' c1 = Some ref" and a2: "ACTIVE_BATTLES w' c2 = Some ref"
  have old: "\<And>c. ACTIVE_BATTLES w c = Some ref \<Longrightarrow> ref < next_ref w"
    using assms(2) by (auto simp: well_registered_def)
  show "c1 = c2"
  proof (rule ccontr)
    assume ne: "c1 \<noteq> c2"
    show False
    proof (cases "ACTIVE_BATTLES w c1 = Some ref")
      case True
      note t1 = this
      show False
      proof (cases "ACTIVE_BATTLES w c2 = Some ref")
        case True
        then show False using t1 ne assms(2) by (auto simp: well_registered_def)
      next
        case False
        then have "ref = next_ref w" using step_registers_fresh[OF assms(1) a2] by simp
        then show False using old[OF t1] by simp
      qed
    next
      case False
      from step_registers_fresh[OF assms(1) a1 False]
      have f: "ref = next_ref w" "ACTIVE_BATTLES w' c2 = ACTIVE_BATTLES w c2" using ne by auto
      then have "ACTIVE_BATTLES w c2 = Some ref" using a2 by simp
      then show False using old f(1) by fastforce
    qed
  qed
qed

lemma reachable_well_registered: "reachable w \<Longrightarrow> well_registered w"
  unfolding reachable_def
proof (induction rule: rtranclp_induct)
  case base
  show ?case by (simp add: well_registered_def init_world_def)
next
  case (step y z)
  then show ?case using step_well_registered by blast
qed

lemma step_retired:
  assumes "step w w'" "retired ref w"
  shows "retired ref w'"
  unfolding retired_def
proof (intro conjI allI impI)
  show "ref < next_ref w'"
    using assms(2) step_next_ref[OF assms(1)] by (auto simp: retired_def)
next
  fix chat
  show "ACTIVE_BATTLES w' chat \<noteq> Some ref"
  proof
    assume "ACTIVE_BATTLES w' chat = Some ref"
    from step_registry[OF assms(1) this] show False
      using assms(2) by (auto simp: retired_def)
  qed
next
  fix st'
  assume h: "heap w' ref = Some st'"
  show "status st' \<noteq> Running"
  proof
    assume r: "status st' = Running"
    from step_running[OF assms(1) h r] show False
      using assms(2) by (auto simp: retired_def)
  qed
qed

lemma steps_retired: "step\<^sup>*\<^sup>* w w' \<Longrightarrow> retired ref w \<Longrightarrow> retired ref w'"
  by (induction rule: rtranclp_induct) (auto intro: step_retired)

section \<open>The handlers are paths of steps\<close>

lemma steps_cmd_createbattle: "step\<^sup>*\<^sup>* w (snd (cmd_createbattle py_int chat uid args send w))"
proof (cases "chat \<in> dom (ACTIVE_BATTLES w)")
  case True
  then show ?thesis by (simp add: cmd_createbattle_def)
next
  case False
  show ?thesis
  proof (cases "get_user w chat uid")
    case None
    then show ?thesis using False by (simp add: cmd_createbattle_def)
  next
    case (Some u)
    obtain full_name handle r where u: "u = (full_name, handle, r)" by (cases u)
    show ?thesis
    proof (cases "parse_create_args py_int args")
      case (Inl e)
      then show ?thesis using False Some u by (simp add: cmd_createbattle_def)
    next
      case (Inr res)
      obtain num rs where res: "res = (num, rs)" by (cases res)
      define wa where "wa = register_battle chat (new_battle uid handle num rs) w"
      define wb where "wb = wa\<lparr>sent := sent w @ [(chat, BattleCreated)]\<rparr>"
      have s1: "step w wa"
        unfolding wa_def using s_register[of w chat uid full_name handle r num rs] Some u by simp
      have "sent wa = sent w" by (simp add: wa_def register_battle_def)
      then have s2: "step wa wb"
        unfolding wb_def using s_send[of wa chat BattleCreated] by simp
      have path: "step\<^sup>*\<^sup>* w wb" using s1 s2 by auto
      show ?thesis
      proof (cases send)
        case None
        then have "snd (cmd_createbattle py_int chat uid args send w) = wb"
          using False Some u Inr res by (simp add: cmd_createbattle_def wa_def wb_def)
        then show ?thesis using path by simp
      next
        case (Some mid)
        have "snd (cmd_createbattle py_int chat uid args send w) = announce_battle chat (next_ref w) mid wb"
          using False \<open>get_user w chat uid = Some u\<close> u Inr res Some
          by (simp add: cmd_createbattle_def wa_def wb_def)
        moreover have "step wb (announce_battle chat (next_ref w) mid wb)" by (rule s_announce)
        ultimately show ?thesis using path by auto
      qed
    qed
  qed
qed

lemma steps_handle_ready_callback: "step\<^sup>*\<^sup>* w (handle_ready_callback chat uid w)"
proof -
  have "handle_ready_callback chat uid w = w
        \<or> (\<exists>ref handle. handle_ready_callback chat uid w = ready_join ref uid handle w)"
    by (auto simp: handle_ready_callback_def split: option.splits prod.splits)
  then show ?thesis using s_ready by auto
qed

lemma steps_run_battle_selected: "step\<^sup>*\<^sup>* w (snd (run_battle_selected chat ref selected w))"
proof (cases "heap w ref")
  case None
  then show ?thesis by (simp add: run_battle_selected_def)
next
  case (Some st)
  define w1 where "w1 = upd_battle ref (\<lambda>b. b\<lparr>selected_problems := selected\<rparr>) w"
  have s1: "step w w1" unfolding w1_def by (rule s_selected)
  show ?thesis
  proof (cases "selected = [] \<or> int (length selected) < num_problems st")
    case True
    define n where "n = SelectFailed (length selected) (num_problems st)"
    define w2 where "w2 = w1\<lparr>sent := sent w1 @ [(chat, n)]\<rparr>"
    define w3 where "w3 = w2\<lparr>ACTIVE_BATTLES := (ACTIVE_BATTLES w2)(chat := None)\<rparr>"
    have s2: "step w1 w2" unfolding w2_def by (rule s_send)
    have s3: "step w2 w3" unfolding w3_def by (rule s_pop)
    have "snd (run_battle_selected chat ref selected w) = w3"
      using Some True by (simp add: run_battle_selected_def Let_def w1_def w2_def w3_def n_def)
    then show ?thesis using s1 s2 s3 by auto
  next
    case False
    have "snd (run_battle_selected chat ref selected w)
           = increment_battles chat (map fst (participants st)) w1"
      using Some False by (simp add: run_battle_selected_def Let_def w1_def)
    moreover have "step w1 (increment_battles chat (map fst (participants st)) w1)"
      by (rule s_increment)
    ultimately show ?thesis using s1 by auto
  qed
qed

lemma steps_post_round: "step\<^sup>*\<^sup>* w (post_round chat round_idx prob send w)"
proof (cases "battle_of w chat")
  case None
  then show ?thesis by (simp add: post_round_def)
next
  case (Some a)
  obtain ref st where a: "a = (ref, st)" by (cases a)
  define w1 where "w1 = w\<lparr>sent := sent w @ [(chat, RoundPosted round_idx prob)]\<rparr>"
  have s1: "step w w1" unfolding w1_def by (rule s_send)
  show ?thesis
  proof (cases send)
    case None
    then have "post_round chat round_idx prob send w = w1"
      using Some a by (simp add: post_round_def w1_def)
    then show ?thesis using s1 by auto
  next
    case (Some mid)
    have "post_round chat round_idx prob send w =
            upd_battle ref (\<lambda>b. b\<lparr>current_problem := Some prob, current_round_msg := Some mid\<rparr>) w1"
      using \<open>battle_of w chat = Some a\<close> a Some by (simp add: post_round_def w1_def)
    moreover have "step w1 (upd_battle ref (\<lambda>b. b\<lparr>current_problem := Some prob, current_round_msg := Some mid\<rparr>) w1)"
      by (rule s_post_round)
    ultimately show ?thesis using s1 by auto
  qed
qed

lemma steps_finished_resolve:
  "step\<^sup>*\<^sup>* w (snd (finished_resolve chat uid round_idx ref handle subs w))"
proof (cases "heap w ref")
  case None
  then show ?thesis by (simp add: finished_resolve_def)
next
  case (Some st)
  show ?thesis
  proof (cases "current_problem st")
    case None
    then show ?thesis using Some by (simp add: finished_resolve_def)
  next
    case (Some cur)
    show ?thesis
    proof (cases "has_accepted cur subs")
      case False
      then show ?thesis using Some \<open>heap w ref = Some st\<close> by (simp add: finished_resolve_def)
    next
      case True
      define w1 where "w1 = upd_battle ref (\<lambda>b. b\<lparr>round_winner := Some (uid, handle)\<rparr>) w"
      define w2 where "w2 = add_points chat uid (rating_to_points (or0 (rating cur))) True w1"
      define w3 where "w3 = upd_battle ref (\<lambda>b. b\<lparr>round_finished := True\<rparr>) w2"
      have s1: "step w w1" unfolding w1_def by (rule s_winner)
      have s2: "step w1 w2" unfolding w2_def by (rule s_add_points)
      have s3: "step w2 w3" unfolding w3_def by (rule s_round_finished)
      have "snd (finished_resolve chat uid round_idx ref handle subs w) = w3"
        using True Some \<open>heap w ref = Some st\<close>
        by (simp add: finished_resolve_def Let_def w1_def w2_def w3_def)
      then show ?thesis using s1 s2 s3 by auto
    qed
  qed
qed

lemma steps_handle_finished_callback:
  "step\<^sup>*\<^sup>* w (snd (handle_finished_callback chat uid round_idx subs w))"
  using steps_finished_resolve
  by (auto simp: handle_finished_callback_def split: sum.splits)

lemma steps_cmd_cancelbattle: "step\<^sup>*\<^sup>* w (snd (cmd_cancelbattle chat uid mid w))"
  using s_pending[of w chat mid]
  by (auto simp: cmd_cancelbattle_def split: option.splits)

lemma steps_finalize_battle: "step\<^sup>*\<^sup>* w (finalize_battle chat w)"
proof (cases "battle_of w chat")
  case None
  then show ?thesis by (simp add: finalize_battle_def)
next
  case (Some a)
  obtain ref st where a: "a = (ref, st)" by (cases a)
  define w1 where "w1 = w\<lparr>sent := sent w @ [(chat, BattleFinished)]\<rparr>"
  have s1: "step w w1" unfolding w1_def by (rule s_send)
  have s2: "step w1 (w1\<lparr>ACTIVE_BATTLES := (ACTIVE_BATTLES w1)(chat := None)\<rparr>)" by (rule s_pop)
  have "finalize_battle chat w = w1\<lparr>ACTIVE_BATTLES := (ACTIVE_BATTLES w1)(chat := None)\<rparr>"
    using Some a by (simp add: finalize_battle_def w1_def)
  then show ?thesis using s1 s2 by auto
qed

lemma reachable_step: "reachable w \<Longrightarrow> step w w' \<Longrightarrow> reachable w'"
  by (auto simp: reachable_def)

lemma reachable_steps: "reachable w \<Longrightarrow> step\<^sup>*\<^sup>* w w' \<Longrightarrow> reachable w'"
  by (auto simp: reachable_def)

lemma reachable_w_users: "reachable w_users"
  unfolding w_users_def
  by (intro reachable_step[OF _ s_sethandle]) (simp add: reachable_def)

lemma reachable_w_alone: "reachable w_alone"
  unfolding w_alone_def using reachable_steps[OF reachable_w_users steps_cmd_createbattle] .

lemma reachable_w_running: "reachable w_running"
  unfolding w_running_def w_joined_def w_joining_def
  by (intro reachable_step[OF _ s_elapse] reachable_steps[OF _ steps_handle_ready_callback]
        reachable_steps[OF _ steps_cmd_createbattle] reachable_w_users)

lemma reachable_w_round1: "reachable w_round1"
  unfolding w_round1_def w_entered_def
  by (intro reachable_steps[OF _ steps_post_round] reachable_step[OF _ s_round_start]
        reachable_steps[OF _ steps_run_battle_selected] reachable_w_running)

lemma reachable_w_prompted: "reachable w_prompted"
  unfolding w_prompted_def
  by (intro reachable_steps[OF _ steps_cmd_cancelbattle] reachable_w_round1)

section \<open>The join countdown gates the running phase\<close>

lemma tail_few:
  assumes "battle_of w chat = Some (ref, st)" "length (participants st) < 2"
  shows "countdown_tail chat w = (TooFew, w\<lparr>sent := sent w @ [(chat, NotEnoughParticipants)]\<rparr>)"
  using assms by (simp add: countdown_tail_def)

lemma tail_enough:
  assumes "battle_of w chat = Some (ref, st)" "2 \<le> length (participants st)"
  shows "fst (countdown_tail chat w) = SetRunning"
    and "battle_of (countdown_elapse chat w) chat = Some (ref, st\<lparr>status := Running\<rparr>)"
    and "spawned (countdown_elapse chat w) = spawned w @ [RunBattle chat]"
    and "sent (countdown_elapse chat w) = sent w"
  using assms battle_of_SomeD[OF assms(1)]
  by (simp_all add: countdown_elapse_def countdown_tail_def battle_of_def heap_upd_battle
        upd_battle_fields)

text \<open>
  The tail sets the chat's battle running exactly when it has two participants or
  more, and starts \<open>run_battle\<close> then; with fewer it sends the notice and touches
  nothing else, and the drop that follows the notice leaves the chat without a battle.
\<close>

lemma countdown_gate:
  assumes "battle_of w chat = Some (ref, st)"
  shows "(fst (countdown_tail chat w) = SetRunning) = (2 \<le> length (participants st))"
    and "(fst (countdown_tail chat w) = TooFew) = (length (participants st) < 2)"
    and "length (participants st) < 2 \<Longrightarrow>
           heap (countdown_elapse chat w) = heap w
         \<and> ACTIVE_BATTLES (countdown_elapse chat w) = ACTIVE_BATTLES w
         \<and> spawned (countdown_elapse chat w) = spawned w
         \<and> sent (countdown_elapse chat w) = sent w @ [(chat, NotEnoughParticipants)]"
    and "ACTIVE_BATTLES (countdown_drop chat w') chat = None"
  using assms
  by (auto simp: countdown_elapse_def countdown_tail_def countdown_drop_def)

text \<open>In every reachable state a running battle has at least two participants.\<close>

lemma running_has_two:
  "reachable w \<Longrightarrow> heap w ref = Some st \<Longrightarrow> status st = Running \<Longrightarrow> 2 \<le> length (participants st)"
  using reachable_gated[of w] by (auto simp: gated_def)

text \<open>A battle that is not running when its registration is dropped never runs.\<close>

lemma drop_retires:
  assumes "well_registered w" "battle_of w chat = Some (ref, st)" "status st \<noteq> Running"
  shows "retired ref (countdown_drop chat w)"
proof -
  note b = battle_of_SomeD[OF assms(2)]
  have "ref < next_ref w" using assms(1) b by (auto simp: well_registered_def)
  moreover have "\<And>c. c \<noteq> chat \<Longrightarrow> ACTIVE_BATTLES w c \<noteq> Some ref"
    using assms(1) b by (auto simp: well_registered_def)
  ultimately show ?thesis
    using b assms(3) by (auto simp: retired_def countdown_drop_def)
qed

lemma dropped_never_runs:
  assumes "reachable w" "battle_of w chat = Some (ref, st)" "status st \<noteq> Running"
      and "step\<^sup>*\<^sup>* (countdown_drop chat w) w'" "heap w' ref = Some st'"
  shows "status st' \<noteq> Running"
proof -
  have "retired ref (countdown_drop chat w)"
    using drop_retires[OF reachable_well_registered[OF assms(1)] assms(2,3)] .
  then have "retired ref w'" using steps_retired assms(4) by blast
  then show ?thesis using assms(5) by (simp add: retired_def)
qed

text \<open>The example with the two countdowns is a path of \<open>step\<close>.\<close>

lemma reachable_w_dropped: "reachable w_dropped"
  unfolding w_dropped_def w_set_running_def w_bob_in_def w_noticed_def w_second_def
    w_first_gone_def countdown_drop_def
  by (intro reachable_step[OF _ s_pop] reachable_step[OF _ s_elapse]
        reachable_steps[OF _ steps_handle_ready_callback]
        reachable_steps[OF _ steps_cmd_createbattle] reachable_step[OF _ s_confirm_cancel]
        reachable_steps[OF _ steps_cmd_cancelbattle] reachable_w_alone)

text \<open>
  Claim C5. A battle is set running after the notice \<open>not enough participants\<close> has
  been sent for it. Alice's first battle is cancelled and her second one created while
  the countdown of the first is between two ticks; at its next tick that countdown
  finds a joining battle in the chat and goes on. It runs out first, finds Alice alone
  in the second battle and sends the notice. While the send is awaited Bob joins, and
  the second battle's own countdown runs out: it finds two participants, sets the
  battle running and starts \<open>run_battle\<close>. Then the first countdown drops the
  registration of the battle that is now running.
\<close>

theorem stale_countdown_runs_noticed_battle:
  "reachable w_dropped
   \<and> ACTIVE_BATTLES w_first_gone 7 = None
   \<and> battle_of w_second 7 = Some (1, st_alone\<lparr>message_id := Some 104\<rparr>)
   \<and> spawned w_second = [Countdown 7, Countdown 7]
   \<and> countdown_tick 7 w_second
   \<and> fst (countdown_tail 7 w_second) = TooFew
   \<and> sent w_noticed = sent w_second @ [(7, NotEnoughParticipants)]
   \<and> countdown_tick 7 w_bob_in
   \<and> fst (countdown_tail 7 w_bob_in) = SetRunning
   \<and> battle_of w_set_running 7
        = Some (1, st_alone\<lparr>message_id := Some 104, participants := [(1, ''alice''), (2, ''bob'')],
                            status := Running\<rparr>)
   \<and> ACTIVE_BATTLES w_dropped 7 = None
   \<and> heap w_dropped 1
        = Some (st_alone\<lparr>message_id := Some 104, participants := [(1, ''alice''), (2, ''bob'')],
                         status := Running\<rparr>)
   \<and> sent w_dropped = sent w_second @ [(7, NotEnoughParticipants)]"
proof -
  have "ACTIVE_BATTLES w_first_gone 7 = None
   \<and> battle_of w_second 7 = Some (1, st_alone\<lparr>message_id := Some 104\<rparr>)
   \<and> spawned w_second = [Countdown 7, Countdown 7]
   \<and> countdown_tick 7 w_second
   \<and> fst (countdown_tail 7 w_second) = TooFew
   \<and> sent w_noticed = sent w_second @ [(7, NotEnoughParticipants)]
   \<and> countdown_tick 7 w_bob_in
   \<and> fst (countdown_tail 7 w_bob_in) = SetRunning
   \<and> battle_of w_set_running 7
        = Some (1, st_alone\<lparr>message_id := Some 104, participants := [(1, ''alice''), (2, ''bob'')],
                            status := Running\<rparr>)
   \<and> ACTIVE_BATTLES w_dropped 7 = None
   \<and> heap w_dropped 1
        = Some (st_alone\<lparr>message_id := Some 104, participants := [(1, ''alice''), (2, ''bob'')],
                         status := Running\<rparr>)
   \<and> sent w_dropped = sent w_second @ [(7, NotEnoughParticipants)]"
    by code_simp
  then show ?thesis using reachable_w_dropped by simp
qed

section \<open>Entering the running phase\<close>

lemma bump_battles_apply:
  "bump_battles chat a tbl (c, u) =
     (if c = chat \<and> u = a then map_option (\<lambda>row. row\<lparr>battles := battles row + 1\<rparr>) (tbl (c, u))
      else tbl (c, u))"
  by (auto simp: bump_battles_def split: option.splits)

lemma fold_bump_battles:
  "distinct uids \<Longrightarrow>
   fold (bump_battles chat) uids tbl (c, u) =
     (if c = chat \<and> u \<in> set uids
      then map_option (\<lambda>row. row\<lparr>battles := battles row + 1\<rparr>) (tbl (c, u))
      else tbl (c, u))"
proof (induction uids arbitrary: tbl)
  case Nil
  show ?case by simp
next
  case (Cons a uids)
  then have d: "distinct uids" "a \<notin> set uids" by simp_all
  show ?case
    using Cons.IH[OF d(1), of "bump_battles chat a tbl"] d(2)
    by (auto simp: bump_battles_apply)
qed

text \<open>
  Claim C6. When the selector has returned, \<open>run_battle\<close> either finds the selection
  empty or shorter than the problem count, and then drops the chat's registration with
  the selection-failed notice and leaves the points table alone; or it adds one to the
  \<open>battles\<close> column of every participant's row of this chat and changes no other
  column and no other row. No round has been posted by then. A participant has a row
  since \<open>upsert_user\<close> created it with the handle.
\<close>

theorem run_battle_entry_counts:
  assumes "heap w ref = Some st"
  shows "(selected = [] \<or> int (length selected) < num_problems st \<longrightarrow>
            fst (run_battle_selected chat ref selected w) = Aborted
          \<and> ACTIVE_BATTLES (snd (run_battle_selected chat ref selected w)) chat = None
          \<and> sent (snd (run_battle_selected chat ref selected w))
              = sent w @ [(chat, SelectFailed (length selected) (num_problems st))]
          \<and> points (snd (run_battle_selected chat ref selected w)) = points w)
       \<and> (\<not> (selected = [] \<or> int (length selected) < num_problems st)
            \<and> distinct (map fst (participants st)) \<longrightarrow>
            fst (run_battle_selected chat ref selected w) = Started
          \<and> ACTIVE_BATTLES (snd (run_battle_selected chat ref selected w)) = ACTIVE_BATTLES w
          \<and> sent (snd (run_battle_selected chat ref selected w)) = sent w
          \<and> heap (snd (run_battle_selected chat ref selected w)) ref
              = Some (st\<lparr>selected_problems := selected\<rparr>)
          \<and> (\<forall>c u. points (snd (run_battle_selected chat ref selected w)) (c, u) =
                (if c = chat \<and> u \<in> fst ` set (participants st)
                 then map_option (\<lambda>row. row\<lparr>battles := battles row + 1\<rparr>) (points w (c, u))
                 else points w (c, u))))
       \<and> (\<not> (selected = [] \<or> int (length selected) < num_problems st)
            \<and> distinct (map fst (participants st))
            \<and> (\<forall>u \<in> fst ` set (participants st). points w (chat, u) \<noteq> None) \<longrightarrow>
            (\<forall>u \<in> fst ` set (participants st). \<exists>row. points w (chat, u) = Some row
                \<and> points (snd (run_battle_selected chat ref selected w)) (chat, u)
                     = Some (row\<lparr>battles := battles row + 1\<rparr>)))"
proof (intro conjI impI allI ballI)
  assume short: "selected = [] \<or> int (length selected) < num_problems st"
  show "fst (run_battle_selected chat ref selected w) = Aborted"
    using assms short by (simp add: run_battle_selected_def Let_def)
  show "ACTIVE_BATTLES (snd (run_battle_selected chat ref selected w)) chat = None"
    using assms short by (simp add: run_battle_selected_def Let_def)
  show "sent (snd (run_battle_selected chat ref selected w))
              = sent w @ [(chat, SelectFailed (length selected) (num_problems st))]"
    using assms short by (simp add: run_battle_selected_def Let_def upd_battle_fields)
  show "points (snd (run_battle_selected chat ref selected w)) = points w"
    using assms short by (simp add: run_battle_selected_def Let_def upd_battle_fields)
next
  assume a: "\<not> (selected = [] \<or> int (length selected) < num_problems st)
            \<and> distinct (map fst (participants st))"
  have r: "run_battle_selected chat ref selected w =
      (Started, increment_battles chat (map fst (participants st))
         (upd_battle ref (\<lambda>b. b\<lparr>selected_problems := selected\<rparr>) w))"
    using assms a by (simp add: run_battle_selected_def Let_def)
  show "fst (run_battle_selected chat ref selected w) = Started" using r by simp
  show "ACTIVE_BATTLES (snd (run_battle_selected chat ref selected w)) = ACTIVE_BATTLES w"
    using r by (simp add: increment_battles_def upd_battle_fields)
  show "sent (snd (run_battle_selected chat ref selected w)) = sent w"
    using r by (simp add: increment_battles_def upd_battle_fields)
  show "heap (snd (run_battle_selected chat ref selected w)) ref
              = Some (st\<lparr>selected_problems := selected\<rparr>)"
    using r assms by (simp add: increment_battles_def heap_upd_battle)
  fix c u
  show "points (snd (run_battle_selected chat ref selected w)) (c, u) =
                (if c = chat \<and> u \<in> fst ` set (participants st)
                 then map_option (\<lambda>row. row\<lparr>battles := battles row + 1\<rparr>) (points w (c, u))
                 else points w (c, u))"
    using r a fold_bump_battles[of "map fst (participants st)" chat "points w" c u]
    by (simp add: increment_battles_def upd_battle_fields)
next
  fix u
  assume a: "\<not> (selected = [] \<or> int (length selected) < num_problems st)
            \<and> distinct (map fst (participants st))
            \<and> (\<forall>u \<in> fst ` set (participants st). points w (chat, u) \<noteq> None)"
     and u: "u \<in> fst ` set (participants st)"
  have r: "run_battle_selected chat ref selected w =
      (Started, increment_battles chat (map fst (participants st))
         (upd_battle ref (\<lambda>b. b\<lparr>selected_problems := selected\<rparr>) w))"
    using assms a by (simp add: run_battle_selected_def Let_def)
  from a u obtain row where row: "points w (chat, u) = Some row" by auto
  have "points (snd (run_battle_selected chat ref selected w)) (chat, u)
          = Some (row\<lparr>battles := battles row + 1\<rparr>)"
    using r a u row fold_bump_battles[of "map fst (participants st)" chat "points w" chat u]
    by (simp add: increment_battles_def upd_battle_fields)
  then show "\<exists>row. points w (chat, u) = Some row
                \<and> points (snd (run_battle_selected chat ref selected w)) (chat, u)
                     = Some (row\<lparr>battles := battles row + 1\<rparr>)"
    using row by simp
qed

theorem run_battle_entry_counts_witness:
  "heap w_running 0 = Some (st_joined\<lparr>status := Running\<rparr>)
   \<and> fst (run_battle_selected 7 0 [two_sums] w_running) = Aborted
   \<and> ACTIVE_BATTLES (snd (run_battle_selected 7 0 [two_sums] w_running)) 7 = None
   \<and> points (snd (run_battle_selected 7 0 [two_sums] w_running)) = points w_running
   \<and> fst (run_battle_selected 7 0 [two_sums, long_path] w_running) = Started
   \<and> points w_running (7, 1) = Some \<lparr>pts = 0, battles = 0, first_solves = 0\<rparr>
   \<and> points w_running (7, 2) = Some \<lparr>pts = 0, battles = 0, first_solves = 0\<rparr>
   \<and> points (snd (run_battle_selected 7 0 [two_sums, long_path] w_running)) (7, 1)
        = Some \<lparr>pts = 0, battles = 1, first_solves = 0\<rparr>
   \<and> points (snd (run_battle_selected 7 0 [two_sums, long_path] w_running)) (7, 2)
        = Some \<lparr>pts = 0, battles = 1, first_solves = 0\<rparr>
   \<and> sent (snd (run_battle_selected 7 0 [two_sums, long_path] w_running)) = sent w_running"
proof -
  have h: "heap w_running 0 = Some (st_joined\<lparr>status := Running\<rparr>)" by code_simp
  have p1: "points w_running (7, 1) = Some \<lparr>pts = 0, battles = 0, first_solves = 0\<rparr>" by code_simp
  have p2: "points w_running (7, 2) = Some \<lparr>pts = 0, battles = 0, first_solves = 0\<rparr>" by code_simp
  show ?thesis
    using run_battle_entry_counts[OF h, of "[two_sums]" 7]
          run_battle_entry_counts[OF h, of "[two_sums, long_path]" 7]
          h p1 p2
    by (simp add: st_joined_def)
qed

section \<open>Cancelling stops the battle\<close>






text \<open>
  Every stretch of the bot is a path of \<open>step\<close>, so what holds of every reachable
  world holds of the shared state of every reachable state of the bot.
\<close>

lemma finished_resolve_stretches:
  "finished_resolve chat uid round_idx ref handle subs w =
     (case award_stretch chat uid round_idx ref handle subs w of
        (Won h p, w') \<Rightarrow> (Won h p, finish_stretch ref w')
      | (r, w') \<Rightarrow> (r, w'))"
  by (auto simp: finished_resolve_def award_stretch_def finish_stretch_def Let_def
           split: option.splits)































section \<open>One winner per round\<close>

text \<open>The example is a path of \<open>step\<close>.\<close>

lemma reachable_w_won_twice: "reachable w_won_twice"
  unfolding w_won_twice_def w_reopened_def w_polled_def w_alice_won_def
  by (intro reachable_steps[OF _ steps_handle_finished_callback] reachable_step[OF _ s_cancelround]
        reachable_step[OF _ s_poll] reachable_w_round1)

text \<open>
  Claim C1. Round 1 is won twice. Alice's claim is accepted and awarded, and a claim
  by Bob right after is answered \<open>already won\<close>. The supervisor notices the finished
  round and pauses before round 2. During the pause Alice sends \<open>/cancelround\<close>:
  the battle is still in round 1 with its problem stored, and the command erases the
  recorded winner. Bob's next claim passes the check, is accepted for the same round
  and awarded: both rows hold the points and the first solve of round 1. No two
  handlers overlap in this run.
\<close>

theorem round_won_twice_after_cancelround:
  "reachable w_won_twice
   \<and> battle_of w_round1 7 = Some (0, st_round1)
   \<and> points w_round1 (7, 1) = Some \<lparr>pts = 0, battles = 1, first_solves = 0\<rparr>
   \<and> points w_round1 (7, 2) = Some \<lparr>pts = 0, battles = 1, first_solves = 0\<rparr>
   \<and> fst (handle_finished_callback 7 1 1 [solved two_sums] w_round1) = Won ''alice'' 3
   \<and> battle_of w_alice_won 7
        = Some (0, st_round1\<lparr>round_winner := Some (1, ''alice''), round_finished := True\<rparr>)
   \<and> fst (handle_finished_callback 7 2 1 [solved two_sums] w_alice_won) = AlreadyWon
   \<and> fst (poll_round 0 w_alice_won) = RoundOver
   \<and> fst (cmd_cancelround 7 1 w_polled) = ReplyRoundCancelled 1
   \<and> battle_of w_reopened 7 = Some (0, st_round1\<lparr>round_finished := True\<rparr>)
   \<and> fst (handle_finished_callback 7 2 1 [solved two_sums] w_reopened) = Won ''bob'' 3
   \<and> battle_of w_won_twice 7
        = Some (0, st_round1\<lparr>round_winner := Some (2, ''bob''), round_finished := True\<rparr>)
   \<and> points w_won_twice (7, 1) = Some \<lparr>pts = 3, battles = 1, first_solves = 1\<rparr>
   \<and> points w_won_twice (7, 2) = Some \<lparr>pts = 3, battles = 1, first_solves = 1\<rparr>"
proof -
  have "battle_of w_round1 7 = Some (0, st_round1)
   \<and> points w_round1 (7, 1) = Some \<lparr>pts = 0, battles = 1, first_solves = 0\<rparr>
   \<and> points w_round1 (7, 2) = Some \<lparr>pts = 0, battles = 1, first_solves = 0\<rparr>
   \<and> fst (handle_finished_callback 7 1 1 [solved two_sums] w_round1) = Won ''alice'' 3
   \<and> battle_of w_alice_won 7
        = Some (0, st_round1\<lparr>round_winner := Some (1, ''alice''), round_finished := True\<rparr>)
   \<and> fst (handle_finished_callback 7 2 1 [solved two_sums] w_alice_won) = AlreadyWon
   \<and> fst (poll_round 0 w_alice_won) = RoundOver
   \<and> fst (cmd_cancelround 7 1 w_polled) = ReplyRoundCancelled 1
   \<and> battle_of w_reopened 7 = Some (0, st_round1\<lparr>round_finished := True\<rparr>)
   \<and> fst (handle_finished_callback 7 2 1 [solved two_sums] w_reopened) = Won ''bob'' 3
   \<and> battle_of w_won_twice 7
        = Some (0, st_round1\<lparr>round_winner := Some (2, ''bob''), round_finished := True\<rparr>)
   \<and> points w_won_twice (7, 1) = Some \<lparr>pts = 3, battles = 1, first_solves = 1\<rparr>
   \<and> points w_won_twice (7, 2) = Some \<lparr>pts = 3, battles = 1, first_solves = 1\<rparr>"
    by code_simp
  then show ?thesis using reachable_w_won_twice by simp
qed

text \<open>
  The check of \<open>round_winner\<close> and its assignment are on the two sides of the await of
  the claimant's submissions: two resolutions that have both passed the check are
  both recorded as won and both awarded.
\<close>

lemma overlapping_resolutions_both_awarded:
  "finished_check 7 1 w_round1 = Inr (0, ''alice'')
   \<and> finished_check 7 2 w_round1 = Inr (0, ''bob'')
   \<and> fst (finished_resolve 7 1 1 0 ''alice'' [solved two_sums] w_round1) = Won ''alice'' 3
   \<and> fst (finished_resolve 7 2 1 0 ''bob'' [solved two_sums]
             (snd (finished_resolve 7 1 1 0 ''alice'' [solved two_sums] w_round1))) = Won ''bob'' 3
   \<and> points w_both_won (7, 1) = Some \<lparr>pts = 3, battles = 1, first_solves = 1\<rparr>
   \<and> points w_both_won (7, 2) = Some \<lparr>pts = 3, battles = 1, first_solves = 1\<rparr>"
  by code_simp

section \<open>Who can confirm a cancellation\<close>

text \<open>
  Claim C3. \<open>cmd_cancelbattle\<close> asks for the creator, \<open>handle_confirm_cancel\<close> does
  not: with Alice's prompt pending, Bob, who is refused by \<open>cmd_cancelbattle\<close>, presses
  the confirm button and the battle is cancelled and dropped from the registry.
\<close>

theorem confirm_cancel_by_non_creator:
  "battle_of w_prompted 7 = Some (0, st_round1)
   \<and> creator st_round1 = 1
   \<and> PENDING_CANCELS w_prompted 7 = Some 103
   \<and> fst (cmd_cancelbattle 7 2 104 w_round1) = ReplyOnlyCreator
   \<and> fst (handle_confirm_cancel 7 2 w_prompted) = EditCancelledByCreator
   \<and> ACTIVE_BATTLES (snd (handle_confirm_cancel 7 2 w_prompted)) 7 = None
   \<and> heap (snd (handle_confirm_cancel 7 2 w_prompted)) 0
       = Some (st_round1\<lparr>status := Cancelled, round_finished := True\<rparr>)"
  by code_simp

end
